theory Spec2Isabelle
  imports
    Main
    "HOL-Library.Word"
    "HOL-Library.Char_ord"
    "HOL-Library.List_Lexorder"
begin

section \<open>The BBF command line tool (bbfenc.cpp)\<close>

text \<open>
  A shallow embedding of \<^verbatim>\<open>src/bbfenc.cpp\<close>: the class \<^verbatim>\<open>BBFReader\<close> and the part of
  \<^verbatim>\<open>main\<close> below the comment \<^verbatim>\<open>// Perform actions\<close>. The argument parsing loop
  above that comment is not embedded: the record \<open>options\<close> holds the values of the
  locals it fills.

  Conventions.
  \<^item> Bytes (\<^verbatim>\<open>char\<close>) are \<^typ>\<open>char\<close>; \<^verbatim>\<open>std::string\<close> and \<^verbatim>\<open>std::vector<char>\<close> are
    \<^typ>\<open>string\<close>.
  \<^item> \<^verbatim>\<open>uint8_t\<close>, \<^verbatim>\<open>uint32_t\<close>, \<^verbatim>\<open>uint64_t\<close> are words, and their arithmetic wraps. A loop
    over a whole vector is a recursion over the list; the page loop of the extract block,
    whose bounds come from the file, keeps its \<^verbatim>\<open>uint32_t\<close> counter.
  \<^item> The input stream keeps its position and its fail bit: once a read comes up short,
    every later \<^verbatim>\<open>seekg\<close> and \<^verbatim>\<open>read\<close> on the stream does nothing.
  \<^item> What the program does to its environment is a list of events, in order.
  \<^item> Indexing a vector out of range and reading a C string that is not terminated inside
    its buffer have no defined result in C++: the model stops with a \<open>fault\<close>.
  \<^item> Memory allocation and the calls into \<^verbatim>\<open>std::filesystem\<close> are taken to succeed.
\<close>

type_synonym u8 = "8 word"
type_synonym u32 = "32 word"
type_synonym u64 = "64 word"

subsection \<open>The records of libbbf.h\<close>

text \<open>
  Modelled from the spec: \<^verbatim>\<open>libbbf.h\<close> is not among the sources. The records have the
  fields that \<^verbatim>\<open>bbfenc.cpp\<close> reads, with the widths of the locals it copies them to
  (\<^verbatim>\<open>uint32_t\<close> for section fields and string offsets) and of the spec's data model
  (byte offsets, byte lengths and the content hash are 64 bit, the version and the type
  tag one byte, counts and indices 32 bit).
\<close>

record BBFHeader =
  magic :: string
  version :: u8

record BBFFooter =
  footer_magic :: string
  stringPoolOffset :: u64
  assetTableOffset :: u64
  assetCount :: u32
  pageTableOffset :: u64
  pageCount :: u32
  sectionTableOffset :: u64
  sectionCount :: u32
  metaTableOffset :: u64
  keyCount :: u32

record BBFAssetEntry =
  offset :: u64
  length_bytes :: u64
  xxh3Hash :: u64
  type :: u8

record BBFPageEntry =
  assetIndex :: u32

record BBFSection =
  sectionTitleOffset :: u32
  sectionStartIndex :: u32
  parentSectionIndex :: u32

record BBFMetadata =
  keyOffset :: u32
  valOffset :: u32

text \<open>
  The program reads every record with \<^verbatim>\<open>stream.read(reinterpret_cast<char *>(&x), sizeof x)\<close>.
  The sizes and the meaning of the bytes come from \<^verbatim>\<open>libbbf.h\<close>; they are a parameter
  of the model.
\<close>

record layout =
  sizeof_BBFHeader :: nat
  sizeof_BBFFooter :: nat
  sizeof_BBFAssetEntry :: nat
  sizeof_BBFPageEntry :: nat
  sizeof_BBFSection :: nat
  sizeof_BBFMetadata :: nat
  as_BBFHeader :: "string \<Rightarrow> BBFHeader"
  as_BBFFooter :: "string \<Rightarrow> BBFFooter"
  as_BBFAssetEntry :: "string \<Rightarrow> BBFAssetEntry"
  as_BBFPageEntry :: "string \<Rightarrow> BBFPageEntry"
  as_BBFSection :: "string \<Rightarrow> BBFSection"
  as_BBFMetadata :: "string \<Rightarrow> BBFMetadata"

subsection \<open>The input stream\<close>

record ifstream =
  contents :: string
  gpos :: nat
  failbit :: bool

text \<open>
  \<^verbatim>\<open>seekg(pos)\<close>: nothing on a failed stream; a position that is negative as a
  \<^verbatim>\<open>streamoff\<close> sets the fail bit; a position past the end is accepted.
\<close>

definition seekg :: "u64 \<Rightarrow> ifstream \<Rightarrow> ifstream" where
  "seekg p s =
     (if failbit s then s
      else if sint p < 0 then s\<lparr>failbit := True\<rparr>
      else s\<lparr>gpos := unat p\<rparr>)"

text \<open>
  \<^verbatim>\<open>read(buf, n)\<close> into a buffer that holds \<open>buf\<close> before the call: the bytes that are
  there replace the front of the buffer, the rest of the buffer keeps what it held, and
  fewer than \<open>n\<close> bytes set the fail bit.
\<close>

definition read_bytes :: "nat \<Rightarrow> string \<Rightarrow> ifstream \<Rightarrow> string \<times> ifstream" where
  "read_bytes n buf s =
     (if failbit s then (buf, s)
      else
        let got = take n (drop (gpos s) (contents s))
        in (got @ drop (length got) buf,
            s\<lparr>gpos := gpos s + length got, failbit := length got < n\<rparr>))"

text \<open>A value-initialised \<^verbatim>\<open>std::vector<char>(n)\<close>.\<close>

definition zeros :: "nat \<Rightarrow> string" where
  "zeros n = replicate n (CHR 0x00)"

subsection \<open>BBFReader\<close>

datatype fault = UnterminatedString | IndexOutOfRange

record BBFReader =
  footer :: BBFFooter
  header :: BBFHeader
  stream :: ifstream
  stringPool :: string

text \<open>
  \<^verbatim>\<open>getString\<close>: the guard, then \<^verbatim>\<open>std::string(stringPool.data() + offset)\<close>, which
  copies up to the next null byte. Without a null byte in the rest of the pool the copy
  runs past the vector.
\<close>

definition getString :: "BBFReader \<Rightarrow> u32 \<Rightarrow> fault + string" where
  "getString r off =
     (if unat off \<ge> length (stringPool r) then Inr ''OFFSET_ERR''
      else
        let rest = drop (unat off) (stringPool r)
        in if CHR 0x00 \<in> set rest then Inr (takeWhile (\<lambda>c. c \<noteq> CHR 0x00) rest)
           else Inl UnterminatedString)"


text \<open>
  \<^verbatim>\<open>open\<close>. The result \<open>None\<close> is \<^verbatim>\<open>return false\<close>. The reader object of \<^verbatim>\<open>main\<close> is
  default-initialised, so \<open>mem\<close> gives the bytes that its \<^verbatim>\<open>header\<close> and \<^verbatim>\<open>footer\<close>
  members hold before the call; a short read leaves them in place. The footer position
  \<^verbatim>\<open>fileSize - sizeof(BBFFooter)\<close> is computed in \<^verbatim>\<open>size_t\<close> and wraps.
\<close>

definition BBFReader_open ::
  "layout \<Rightarrow> (string \<rightharpoonup> string) \<Rightarrow> string \<times> string \<Rightarrow> string \<Rightarrow> BBFReader option" where
  "BBFReader_open lay fs mem path =
     (case fs path of
        None \<Rightarrow> None
      | Some bytes \<Rightarrow>
          let fileSize = length bytes;
              s0 = \<lparr>contents = bytes, gpos = fileSize, failbit = False\<rparr>;
              s1 = seekg 0 s0;
              (hbuf, s2) = read_bytes (sizeof_BBFHeader lay) (fst mem) s1;
              hdr = as_BBFHeader lay hbuf
          in if magic hdr \<noteq> ''BBF1'' then None
             else
               let s3 = seekg (of_nat fileSize - of_nat (sizeof_BBFFooter lay)) s2;
                   (fbuf, s4) = read_bytes (sizeof_BBFFooter lay) (snd mem) s3;
                   ftr = as_BBFFooter lay fbuf
               in if footer_magic ftr \<noteq> ''BBF1'' then None
                  else
                    let n = unat (assetTableOffset ftr - stringPoolOffset ftr);
                        s5 = seekg (stringPoolOffset ftr) s4;
                        (pool, s6) = read_bytes n (zeros n) s5
                    in Some \<lparr>footer = ftr, header = hdr, stream = s6, stringPool = pool\<rparr>)"

text \<open>
  The four table readers share one shape: a vector of \<open>count\<close> value-initialised
  records, a seek to the table, one read of \<open>count * sizeof(record)\<close> bytes over it.
\<close>

definition read_table ::
  "nat \<Rightarrow> (string \<Rightarrow> 'a) \<Rightarrow> u64 \<Rightarrow> u32 \<Rightarrow> ifstream \<Rightarrow> 'a list \<times> ifstream" where
  "read_table sz dec off count s =
     (let n = unat count;
          (buf, s') = read_bytes (n * sz) (zeros (n * sz)) (seekg off s)
      in (map (\<lambda>k. dec (take sz (drop (k * sz) buf))) [0..<n], s'))"

definition getAssets :: "layout \<Rightarrow> BBFReader \<Rightarrow> BBFAssetEntry list \<times> BBFReader" where
  "getAssets lay r =
     (let (assets, s) = read_table (sizeof_BBFAssetEntry lay) (as_BBFAssetEntry lay)
                          (assetTableOffset (footer r)) (assetCount (footer r)) (stream r)
      in (assets, r\<lparr>stream := s\<rparr>))"

definition getPages :: "layout \<Rightarrow> BBFReader \<Rightarrow> BBFPageEntry list \<times> BBFReader" where
  "getPages lay r =
     (let (pages, s) = read_table (sizeof_BBFPageEntry lay) (as_BBFPageEntry lay)
                         (pageTableOffset (footer r)) (pageCount (footer r)) (stream r)
      in (pages, r\<lparr>stream := s\<rparr>))"

definition getSections :: "layout \<Rightarrow> BBFReader \<Rightarrow> BBFSection list \<times> BBFReader" where
  "getSections lay r =
     (let (sections, s) = read_table (sizeof_BBFSection lay) (as_BBFSection lay)
                            (sectionTableOffset (footer r)) (sectionCount (footer r)) (stream r)
      in (sections, r\<lparr>stream := s\<rparr>))"

text \<open>\<^verbatim>\<open>getMetadata\<close> seeks and reads only when \<^verbatim>\<open>keyCount > 0\<close>.\<close>

definition getMetadata :: "layout \<Rightarrow> BBFReader \<Rightarrow> BBFMetadata list \<times> BBFReader" where
  "getMetadata lay r =
     (if keyCount (footer r) > 0 then
        let (meta, s) = read_table (sizeof_BBFMetadata lay) (as_BBFMetadata lay)
                          (metaTableOffset (footer r)) (keyCount (footer r)) (stream r)
        in (meta, r\<lparr>stream := s\<rparr>)
      else ([], r))"

subsection \<open>Helpers of main\<close>

definition trimQuotes :: "string \<Rightarrow> string" where
  "trimQuotes s =
     (if length s \<ge> 2 \<and> hd s = CHR 0x22 \<and> last s = CHR 0x22
      then take (length s - 2) (drop 1 s)
      else s)"

text \<open>\<^verbatim>\<open>std::to_string\<close> and \<^verbatim>\<open>operator<<\<close> on an unsigned number: its decimal digits.\<close>

definition digit_char :: "nat \<Rightarrow> char" where
  "digit_char d = ''0123456789'' ! d"

function to_string :: "nat \<Rightarrow> string" where
  "to_string n =
     (if n < 10 then [digit_char n] else to_string (n div 10) @ [digit_char (n mod 10)])"
  by pat_completeness auto
termination
  by (relation "measure id") auto

declare to_string.simps [simp del]

text \<open>\<^verbatim>\<open>std::left << std::setw(n) << s\<close>: \<open>s\<close> filled with spaces on the right up to width \<open>n\<close>.\<close>

definition setw_left :: "nat \<Rightarrow> string \<Rightarrow> string" where
  "setw_left n s = s @ replicate (n - length s) (CHR 0x20)"

definition nl :: string where
  "nl = [CHR 0x0A]"

text \<open>
  \<^verbatim>\<open>(fs::path(dir) / name).string()\<close> for a relative \<open>name\<close>, with the separator of a
  POSIX system.
\<close>

definition path_join :: "string \<Rightarrow> string \<Rightarrow> string" where
  "path_join dir name =
     (if dir = [] then name
      else if last dir = CHR ''/'' then dir @ name
      else dir @ ''/'' @ name)"

subsection \<open>What the program does to its environment\<close>

datatype event =
    Cout string
  | Cerr string
  | CreateDirectories string
  | WriteFile string string

datatype status = Exit int | Fault fault

record SecReq =
  name :: string
  parent :: string
  page :: u32

record MetaReq =
  k :: string
  v :: string

record options =
  inputs :: "string list"
  modeInfo :: bool
  modeVerify :: bool
  modeExtract :: bool
  outDir :: string
  targetSection :: string
  secReqs :: "SecReq list"
  metaReqs :: "MetaReq list"


text \<open>
  What \<^verbatim>\<open>main\<close> takes from outside: the hash function of \<^verbatim>\<open>xxhash.h\<close>, the record
  layout of \<^verbatim>\<open>libbbf.h\<close>, the files and directories on disk, the bytes in the fresh
  reader object, and the result of \<^verbatim>\<open>BBFBuilder::finalize\<close>.
\<close>

record BBFBuilder =
  outputPath :: string
  builderStringPool :: string
  builderPages :: "(string \<times> u8) list"
  builderSections :: "BBFSection list"
  builderMetadata :: "BBFMetadata list"

record env =
  XXH3_64bits :: "string \<Rightarrow> u64"
  lay :: layout
  files :: "string \<rightharpoonup> string"
  directory_entries :: "string \<rightharpoonup> string list"
  reader_mem :: "string \<times> string"
  finalize :: "BBFBuilder \<Rightarrow> bool"

type_synonym phase_result = "status option \<times> BBFReader \<times> event list"

subsection \<open>main: --info\<close>

fun info_sections :: "BBFReader \<Rightarrow> BBFSection list \<Rightarrow> event list \<Rightarrow> fault option \<times> event list" where
  "info_sections r [] t = (None, t)"
| "info_sections r (s # ss) t =
     (case getString r (sectionTitleOffset s) of
        Inl f \<Rightarrow> (Some f, t)
      | Inr title \<Rightarrow>
          info_sections r ss
            (t @ [Cout ('' - '' @ setw_left 20 title @ '' (Starting Page: ''
                        @ to_string (unat (sectionStartIndex s + 1)) @ '')'' @ nl)]))"

fun info_metadata :: "BBFReader \<Rightarrow> BBFMetadata list \<Rightarrow> event list \<Rightarrow> fault option \<times> event list" where
  "info_metadata r [] t = (None, t)"
| "info_metadata r (m # ms) t =
     (case getString r (keyOffset m) of
        Inl f \<Rightarrow> (Some f, t)
      | Inr key \<Rightarrow>
          (case getString r (valOffset m) of
             Inl f \<Rightarrow> (Some f, t)
           | Inr val \<Rightarrow>
               info_metadata r ms (t @ [Cout ('' - '' @ setw_left 15 (key @ '':'') @ val @ nl)])))"

definition do_info :: "env \<Rightarrow> BBFReader \<Rightarrow> event list \<Rightarrow> phase_result" where
  "do_info e r t =
     (let t1 = t @ [Cout (''Bound Book Format (.bbf) Info'' @ nl),
                    Cout (''------------------------------'' @ nl),
                    Cout (''BBF Version: '' @ to_string (unat (version (header r))) @ nl),
                    Cout (''Pages:       '' @ to_string (unat (pageCount (footer r))) @ nl),
                    Cout (''Assets:      '' @ to_string (unat (assetCount (footer r)))
                          @ '' (Deduplicated)'' @ nl),
                    Cout (nl @ ''[Sections]'' @ nl)];
          (sections, r1) = getSections (lay e) r;
          (f1, t2) = (if sections = [] then (None, t1 @ [Cout ('' No sections defined.'' @ nl)])
                      else info_sections r1 sections t1)
      in case f1 of
           Some f \<Rightarrow> (Some (Fault f), r1, t2)
         | None \<Rightarrow>
             let t3 = t2 @ [Cout (nl @ ''[Metadata]'' @ nl)];
                 (metadata, r2) = getMetadata (lay e) r1;
                 (f2, t4) = (if metadata = [] then (None, t3 @ [Cout ('' No metadata found.'' @ nl)])
                             else info_metadata r2 metadata t3)
             in (case f2 of
                   Some f \<Rightarrow> (Some (Fault f), r2, t4)
                 | None \<Rightarrow> (None, r2, t4 @ [Cout nl])))"

subsection \<open>main: --verify\<close>

text \<open>
  The three lines that fetch the bytes of an asset, in the verify loop and in the
  extract loop alike: a zeroed buffer of \<^verbatim>\<open>asset.length\<close> bytes, a seek, a read.
\<close>

definition read_asset :: "BBFAssetEntry \<Rightarrow> ifstream \<Rightarrow> string \<times> ifstream" where
  "read_asset a s =
     (let n = unat (length_bytes a)
      in read_bytes n (zeros n) (seekg (offset a) s))"

text \<open>
  The loop over \<^verbatim>\<open>assets\<close>; \<open>i\<close> is the index of the head of the list that is left.
  The result is the stream, the flag \<^verbatim>\<open>clean\<close> and the events.
\<close>

fun verify_loop ::
  "(string \<Rightarrow> u64) \<Rightarrow> BBFAssetEntry list \<Rightarrow> nat \<Rightarrow> ifstream \<Rightarrow> bool \<Rightarrow> event list
   \<Rightarrow> ifstream \<times> bool \<times> event list" where
  "verify_loop H [] i s clean t = (s, clean, t)"
| "verify_loop H (a # as) i s clean t =
     (case read_asset a s of
        (buf, s') \<Rightarrow>
          if H buf \<noteq> xxh3Hash a
          then verify_loop H as (Suc i) s' False
                 (t @ [Cerr (''Mismatch in asset '' @ to_string i @ nl)])
          else verify_loop H as (Suc i) s' clean t)"

definition do_verify :: "env \<Rightarrow> BBFReader \<Rightarrow> event list \<Rightarrow> phase_result" where
  "do_verify e r t =
     (let t1 = t @ [Cout (''Verifying asset integrity...'' @ nl)];
          (assets, r1) = getAssets (lay e) r;
          (s, clean, t2) = verify_loop (XXH3_64bits e) assets 0 (stream r1) True t1
      in (None, r1\<lparr>stream := s\<rparr>,
          if clean then t2 @ [Cout (''Integrity Check Passed.'' @ nl)] else t2))"

subsection \<open>main: --extract\<close>

text \<open>
  The inner loop over \<^verbatim>\<open>j = i + 1 ..\<close>, on the sections after the one found; \<open>end\<close> is
  the value \<^verbatim>\<open>end\<close> holds when the loop starts.
\<close>

fun find_end :: "u32 \<Rightarrow> u32 \<Rightarrow> u32 \<Rightarrow> BBFSection list \<Rightarrow> u32" where
  "find_end start myParent end [] = end"
| "find_end start myParent end (sj # rest) =
     (if sectionStartIndex sj > start \<and> parentSectionIndex sj = myParent
      then sectionStartIndex sj
      else find_end start myParent end rest)"

text \<open>
  The outer loop over \<^verbatim>\<open>i\<close>: \<open>None\<close> when it ends with \<^verbatim>\<open>found == false\<close>, else the
  values of \<^verbatim>\<open>start\<close> and \<^verbatim>\<open>end\<close>.
\<close>

fun find_section ::
  "BBFReader \<Rightarrow> u32 \<Rightarrow> BBFSection list \<Rightarrow> string \<Rightarrow> fault + (u32 \<times> u32) option" where
  "find_section r pages_size [] target = Inr None"
| "find_section r pages_size (si # rest) target =
     (case getString r (sectionTitleOffset si) of
        Inl f \<Rightarrow> Inl f
      | Inr title \<Rightarrow>
          if trimQuotes title = target
          then Inr (Some (sectionStartIndex si,
                          find_end (sectionStartIndex si) (parentSectionIndex si) pages_size rest))
          else find_section r pages_size rest target)"

text \<open>Lines 346 to 378: the page range, or \<open>None\<close> where \<^verbatim>\<open>main\<close> returns 1.\<close>

definition resolve_range ::
  "BBFReader \<Rightarrow> BBFPageEntry list \<Rightarrow> BBFSection list \<Rightarrow> string \<Rightarrow> fault + (u32 \<times> u32) option" where
  "resolve_range r pages sections target =
     (if target \<noteq> [] then find_section r (of_nat (length pages)) sections target
      else Inr (Some (0, of_nat (length pages))))"

text \<open>The body of the loop over the pages, for page \<open>i\<close>.\<close>

definition extract_page ::
  "string \<Rightarrow> BBFPageEntry list \<Rightarrow> BBFAssetEntry list \<Rightarrow> u32 \<Rightarrow> ifstream \<Rightarrow> event list
   \<Rightarrow> fault + ifstream \<times> event list" where
  "extract_page dir pages assets i s t =
     (if unat i \<ge> length pages then Inl IndexOutOfRange
      else
        let ai = assetIndex (pages ! unat i)
        in if unat ai \<ge> length assets then Inl IndexOutOfRange
           else
             let asset = assets ! unat ai;
                 ext = (if type asset = 0x01 then ''.avif'' else ''.png'');
                 outPath = path_join dir (''page_'' @ to_string (unat (i + 1)) @ ext);
                 (buf, s') = read_asset asset s
             in Inr (s', t @ [WriteFile outPath buf]))"

function extract_pages ::
  "string \<Rightarrow> BBFPageEntry list \<Rightarrow> BBFAssetEntry list \<Rightarrow> u32 \<Rightarrow> u32 \<Rightarrow> ifstream \<Rightarrow> event list
   \<Rightarrow> fault option \<times> ifstream \<times> event list" where
  "extract_pages dir pages assets i end s t =
     (if i < end then
        (case extract_page dir pages assets i s t of
           Inl f \<Rightarrow> (Some f, s, t)
         | Inr (s', t') \<Rightarrow> extract_pages dir pages assets (i + 1) end s' t')
      else (None, s, t))"
  by pat_completeness auto
termination
proof (relation "measure (\<lambda>(dir, pages, assets, i, end, s, t). unat end - unat i)")
  show "wf (measure (\<lambda>(dir, pages, assets, i, end, s, t). unat end - unat i))"
    by simp
next
  fix dir :: string and pages :: "BBFPageEntry list" and assets :: "BBFAssetEntry list"
    and i :: u32 and "end" :: u32 and s :: ifstream and t :: "event list"
    and x :: "ifstream \<times> event list" and s' :: ifstream and t' :: "event list"
  assume lt: "i < end"
  then have less: "unat i < unat end"
    by (simp add: word_less_nat_alt)
  moreover have "unat end < 2 ^ 32"
    using unsigned_less [of "end"] by simp
  ultimately have "unat i + 1 < 2 ^ 32"
    by simp
  then have "unat (i + 1) = Suc (unat i)"
    by (simp add: unat_word_ariths)
  with less show "((dir, pages, assets, i + 1, end, s', t'), (dir, pages, assets, i, end, s, t))
      \<in> measure (\<lambda>(dir, pages, assets, i, end, s, t). unat end - unat i)"
    by simp
qed

declare extract_pages.simps [simp del]

definition do_extract :: "env \<Rightarrow> options \<Rightarrow> BBFReader \<Rightarrow> event list \<Rightarrow> phase_result" where
  "do_extract e opts r t =
     (let t1 = t @ [CreateDirectories (outDir opts)];
          (pages, r1) = getPages (lay e) r;
          (assets, r2) = getAssets (lay e) r1;
          (sections, r3) = getSections (lay e) r2
      in case resolve_range r3 pages sections (targetSection opts) of
           Inl f \<Rightarrow> (Some (Fault f), r3, t1)
         | Inr None \<Rightarrow>
             (Some (Exit 1), r3,
              t1 @ [Cerr (''Section '' @ [CHR 0x27] @ targetSection opts @ [CHR 0x27]
                          @ '' not found.'' @ nl)])
         | Inr (Some (start, end)) \<Rightarrow>
             let t2 = t1 @ [Cout (''Extracting '' @ targetSection opts @ '' (Pages ''
                                  @ to_string (unat (start + 1)) @ '' to ''
                                  @ to_string (unat end) @ '') to '' @ outDir opts
                                  @ ''...'' @ nl)]
             in (case extract_pages (outDir opts) pages assets start end (stream r3) t2 of
                   (Some f, s, t3) \<Rightarrow> (Some (Fault f), r3\<lparr>stream := s\<rparr>, t3)
                 | (None, s, t3) \<Rightarrow>
                     (None, r3\<lparr>stream := s\<rparr>,
                      t3 @ [Cout (''Extracted '' @ to_string (unat (end - start))
                                  @ '' pages.'' @ nl)])))"


subsection \<open>main: the reading modes\<close>

definition main_read :: "env \<Rightarrow> options \<Rightarrow> status \<times> event list" where
  "main_read e opts =
     (if inputs opts = [] then (Exit 1, [Cerr (''Error: No .bbf input specified.'' @ nl)])
      else
        case BBFReader_open (lay e) (files e) (reader_mem e) (hd (inputs opts)) of
          None \<Rightarrow> (Exit 1, [Cerr (''Error: Failed to open BBF.'' @ nl)])
        | Some r \<Rightarrow>
            (case (if modeInfo opts then do_info e r [] else (None, r, [])) of
               (Some st, r1, t1) \<Rightarrow> (st, t1)
             | (None, r1, t1) \<Rightarrow>
                 (case (if modeVerify opts then do_verify e r1 t1 else (None, r1, t1)) of
                    (Some st, r2, t2) \<Rightarrow> (st, t2)
                  | (None, r2, t2) \<Rightarrow>
                      (case (if modeExtract opts then do_extract e opts r2 t2
                             else (None, r2, t2)) of
                         (Some st, r3, t3) \<Rightarrow> (st, t3)
                       | (None, r3, t3) \<Rightarrow> (Exit 0, t3)))))"

subsection \<open>main: muxing\<close>

text \<open>
  Modelled from the spec: the class \<^verbatim>\<open>BBFBuilder\<close> is declared in \<^verbatim>\<open>libbbf.h\<close> and is
  not among the sources. Following sections 4.1, 4.3, 4.4 and 4.5 of the spec, the
  builder interns a string by appending it and its null byte to the pool, and
  \<^verbatim>\<open>addSection\<close> and \<^verbatim>\<open>addMetadata\<close> append one record each. Of \<^verbatim>\<open>addPage\<close> the model
  keeps the call (path and type tag), in call order; the asset store behind it is not
  embedded.
\<close>

definition new_builder :: "string \<Rightarrow> BBFBuilder" where
  "new_builder path =
     \<lparr>outputPath = path, builderStringPool = [], builderPages = [],
      builderSections = [], builderMetadata = []\<rparr>"

definition intern :: "string \<Rightarrow> BBFBuilder \<Rightarrow> u32 \<times> BBFBuilder" where
  "intern str b =
     (of_nat (length (builderStringPool b)),
      b\<lparr>builderStringPool := builderStringPool b @ str @ [CHR 0x00]\<rparr>)"

definition addPage :: "BBFBuilder \<Rightarrow> string \<Rightarrow> u8 \<Rightarrow> BBFBuilder" where
  "addPage b path ty = b\<lparr>builderPages := builderPages b @ [(path, ty)]\<rparr>"

definition addSection :: "BBFBuilder \<Rightarrow> string \<Rightarrow> u32 \<Rightarrow> u32 \<Rightarrow> BBFBuilder" where
  "addSection b title startPage parentIdx =
     (let (off, b1) = intern title b
      in b1\<lparr>builderSections := builderSections b1 @
               [\<lparr>sectionTitleOffset = off, sectionStartIndex = startPage,
                 parentSectionIndex = parentIdx\<rparr>]\<rparr>)"

definition addMetadata :: "BBFBuilder \<Rightarrow> string \<Rightarrow> string \<Rightarrow> BBFBuilder" where
  "addMetadata b key val =
     (let (koff, b1) = intern key b;
          (voff, b2) = intern val b1
      in b2\<lparr>builderMetadata := builderMetadata b2 @ [\<lparr>keyOffset = koff, valOffset = voff\<rparr>]\<rparr>)"

text \<open>
  \<^verbatim>\<open>fs::path(p).extension().string()\<close>: the file name is what follows the last
  separator; \<^verbatim>\<open>.\<close> and \<^verbatim>\<open>..\<close> have no extension, nor has a name whose only period is
  its first character; otherwise the extension starts at the last period.
\<close>

definition filename :: "string \<Rightarrow> string" where
  "filename p = rev (takeWhile (\<lambda>c. c \<noteq> CHR ''/'') (rev p))"

definition extension :: "string \<Rightarrow> string" where
  "extension p =
     (let fn = filename p;
          tail = rev (takeWhile (\<lambda>c. c \<noteq> CHR ''.'') (rev fn))
      in if fn = ''.'' \<or> fn = ''..'' then []
         else if CHR ''.'' \<notin> set fn then []
         else if Suc (length tail) = length fn then []
         else ''.'' @ tail)"

text \<open>
  The loop over \<^verbatim>\<open>secReqs\<close>, with the map \<^verbatim>\<open>sectionNameToIdx\<close> and the counter
  \<^verbatim>\<open>sectionCounter\<close>.
\<close>

fun add_sections ::
  "SecReq list \<Rightarrow> (string \<rightharpoonup> u32) \<Rightarrow> u32 \<Rightarrow> BBFBuilder \<Rightarrow> BBFBuilder" where
  "add_sections [] sectionNameToIdx sectionCounter builder = builder"
| "add_sections (s # ss) sectionNameToIdx sectionCounter builder =
     (let parentIdx =
            (if parent s \<noteq> [] then
               (case sectionNameToIdx (parent s) of
                  Some idx \<Rightarrow> idx
                | None \<Rightarrow> 0xFFFFFFFF)
             else 0xFFFFFFFF)
      in add_sections ss (sectionNameToIdx(name s \<mapsto> sectionCounter)) (sectionCounter + 1)
           (addSection builder (name s) (page s - 1) parentIdx))"

text \<open>
  The builder as \<^verbatim>\<open>main\<close> has filled it when it calls \<^verbatim>\<open>finalize\<close>: the output name is
  the last input, the other inputs are expanded and sorted into the pages, then come the
  loops over \<^verbatim>\<open>secReqs\<close> and \<^verbatim>\<open>metaReqs\<close>.
\<close>

definition mux_builder :: "env \<Rightarrow> options \<Rightarrow> BBFBuilder" where
  "mux_builder e opts =
     (let outputBbf = last (inputs opts);
          inputs' = butlast (inputs opts);
          builder = new_builder outputBbf;
          imagePaths = sort (concat (map (\<lambda>path.
                         case directory_entries e path of
                           Some entries \<Rightarrow> entries
                         | None \<Rightarrow> [path]) inputs'));
          builder1 = foldl (\<lambda>b p.
                       addPage b p (if extension p = ''.avif'' \<or> extension p = ''.AVIF''
                                    then 1 else 2)) builder imagePaths;
          builder2 = add_sections (secReqs opts) Map.empty 0 builder1
      in foldl (\<lambda>b m. addMetadata b (trimQuotes (k m)) (trimQuotes (v m)))
           builder2 (metaReqs opts))"

definition main_mux :: "env \<Rightarrow> options \<Rightarrow> status \<times> event list" where
  "main_mux e opts =
     (if length (inputs opts) < 2
      then (Exit 1, [Cerr (''Error: Provide inputs and an output filename.'' @ nl)])
      else
        (Exit 0,
         if finalize e (mux_builder e opts)
         then [Cout (''Successfully created '' @ last (inputs opts) @ nl)]
         else []))"

subsection \<open>main\<close>

definition main :: "env \<Rightarrow> options \<Rightarrow> status \<times> event list" where
  "main e opts =
     (if modeInfo opts \<or> modeVerify opts \<or> modeExtract opts then main_read e opts
      else main_mux e opts)"

subsection \<open>A concrete record layout\<close>

text \<open>
  Modelled from the spec: \<^verbatim>\<open>libbbf.h\<close> is not among the sources. For the examples below
  the records are packed, their fields little endian and in the order of the records
  above: the header is the 4-byte magic and the version byte (section 6 of the spec), the
  footer the magic and then the offsets and counts of the tables.
\<close>

definition le_word :: "string \<Rightarrow> 'a::len word" where
  "le_word bs = foldr (\<lambda>c w. of_nat (of_char c) + 256 * w) bs 0"

definition field :: "nat \<Rightarrow> nat \<Rightarrow> string \<Rightarrow> string" where
  "field pos n bs = take n (drop pos bs)"

definition packed_layout :: layout where
  "packed_layout =
     \<lparr>sizeof_BBFHeader = 5,
      sizeof_BBFFooter = 60,
      sizeof_BBFAssetEntry = 25,
      sizeof_BBFPageEntry = 4,
      sizeof_BBFSection = 12,
      sizeof_BBFMetadata = 8,
      as_BBFHeader = (\<lambda>bs. \<lparr>magic = field 0 4 bs, version = le_word (field 4 1 bs)\<rparr>),
      as_BBFFooter = (\<lambda>bs.
        \<lparr>footer_magic = field 0 4 bs,
         stringPoolOffset = le_word (field 4 8 bs),
         assetTableOffset = le_word (field 12 8 bs),
         assetCount = le_word (field 20 4 bs),
         pageTableOffset = le_word (field 24 8 bs),
         pageCount = le_word (field 32 4 bs),
         sectionTableOffset = le_word (field 36 8 bs),
         sectionCount = le_word (field 44 4 bs),
         metaTableOffset = le_word (field 48 8 bs),
         keyCount = le_word (field 56 4 bs)\<rparr>),
      as_BBFAssetEntry = (\<lambda>bs.
        \<lparr>offset = le_word (field 0 8 bs),
         length_bytes = le_word (field 8 8 bs),
         xxh3Hash = le_word (field 16 8 bs),
         type = le_word (field 24 1 bs)\<rparr>),
      as_BBFPageEntry = (\<lambda>bs. \<lparr>assetIndex = le_word (field 0 4 bs)\<rparr>),
      as_BBFSection = (\<lambda>bs.
        \<lparr>sectionTitleOffset = le_word (field 0 4 bs),
         sectionStartIndex = le_word (field 4 4 bs),
         parentSectionIndex = le_word (field 8 4 bs)\<rparr>),
      as_BBFMetadata = (\<lambda>bs.
        \<lparr>keyOffset = le_word (field 0 4 bs), valOffset = le_word (field 4 4 bs)\<rparr>)\<rparr>"

text \<open>The bytes of a file in this layout, from its parts.\<close>

definition byte :: "nat \<Rightarrow> char" where
  "byte x = Char (odd x) (odd (x div 2)) (odd (x div 4)) (odd (x div 8))
                 (odd (x div 16)) (odd (x div 32)) (odd (x div 64)) (odd (x div 128))"

primrec le_bytes :: "nat \<Rightarrow> nat \<Rightarrow> string" where
  "le_bytes 0 x = []"
| "le_bytes (Suc n) x = byte x # le_bytes n (x div 256)"

definition bytes_of_asset :: "BBFAssetEntry \<Rightarrow> string" where
  "bytes_of_asset a =
     le_bytes 8 (unat (offset a)) @ le_bytes 8 (unat (length_bytes a))
     @ le_bytes 8 (unat (xxh3Hash a)) @ le_bytes 1 (unat (type a))"

definition bytes_of_page :: "BBFPageEntry \<Rightarrow> string" where
  "bytes_of_page p = le_bytes 4 (unat (assetIndex p))"

definition bytes_of_section :: "BBFSection \<Rightarrow> string" where
  "bytes_of_section s =
     le_bytes 4 (unat (sectionTitleOffset s)) @ le_bytes 4 (unat (sectionStartIndex s))
     @ le_bytes 4 (unat (parentSectionIndex s))"

definition bytes_of_metadata :: "BBFMetadata \<Rightarrow> string" where
  "bytes_of_metadata m = le_bytes 4 (unat (keyOffset m)) @ le_bytes 4 (unat (valOffset m))"

text \<open>
  Header, payload, string pool, the four tables, footer: the order in which the spec's
  encoder writes them. The payload starts at byte 5.
\<close>

definition bbf_file ::
  "u8 \<Rightarrow> string \<Rightarrow> string \<Rightarrow> BBFAssetEntry list \<Rightarrow> BBFPageEntry list \<Rightarrow> BBFSection list
   \<Rightarrow> BBFMetadata list \<Rightarrow> string" where
  "bbf_file ver payload pool assets pages sections metadata =
     (let o_pool = 5 + length payload;
          o_assets = o_pool + length pool;
          o_pages = o_assets + 25 * length assets;
          o_sections = o_pages + 4 * length pages;
          o_meta = o_sections + 12 * length sections
      in ''BBF1'' @ le_bytes 1 (unat ver) @ payload @ pool
         @ concat (map bytes_of_asset assets)
         @ concat (map bytes_of_page pages)
         @ concat (map bytes_of_section sections)
         @ concat (map bytes_of_metadata metadata)
         @ ''BBF1'' @ le_bytes 8 o_pool @ le_bytes 8 o_assets @ le_bytes 4 (length assets)
         @ le_bytes 8 o_pages @ le_bytes 4 (length pages)
         @ le_bytes 8 o_sections @ le_bytes 4 (length sections)
         @ le_bytes 8 o_meta @ le_bytes 4 (length metadata))"

subsection \<open>Definitions used to state the properties\<close>

text \<open>
  A string pool as section 3 of the spec describes it and as \<open>intern\<close> builds it: the
  strings back to back, each followed by a null byte.
\<close>

definition pool_of :: "string list \<Rightarrow> string" where
  "pool_of strs = concat (map (\<lambda>s. s @ [CHR 0x00]) strs)"

text \<open>A reader that holds the given string pool, on an empty stream.\<close>

definition reader_with_pool :: "string \<Rightarrow> BBFReader" where
  "reader_with_pool pool =
     \<lparr>footer = as_BBFFooter packed_layout (zeros 60),
      header = as_BBFHeader packed_layout (zeros 5),
      stream = \<lparr>contents = [], gpos = 0, failbit = False\<rparr>,
      stringPool = pool\<rparr>"



text \<open>
  The comparison of the extract loop, for a section \<open>s\<close> of the table:
  \<^verbatim>\<open>trimQuotes(reader.getString(s.sectionTitleOffset)) == targetSection\<close>, once as a test
  that holds and once as a test that fails (both are false when the lookup faults).
\<close>

definition title_is :: "BBFReader \<Rightarrow> BBFSection \<Rightarrow> string \<Rightarrow> bool" where
  "title_is r s target =
     (case getString r (sectionTitleOffset s) of
        Inl f \<Rightarrow> False
      | Inr title \<Rightarrow> trimQuotes title = target)"

definition title_differs :: "BBFReader \<Rightarrow> BBFSection \<Rightarrow> string \<Rightarrow> bool" where
  "title_differs r s target =
     (case getString r (sectionTitleOffset s) of
        Inl f \<Rightarrow> False
      | Inr title \<Rightarrow> trimQuotes title \<noteq> target)"

text \<open>
  Section \<open>j\<close> starts after section \<open>i\<close> and has the same parent index.
\<close>

definition later_sibling :: "BBFSection list \<Rightarrow> nat \<Rightarrow> nat \<Rightarrow> bool" where
  "later_sibling sections i j =
     (sectionStartIndex (sections ! i) < sectionStartIndex (sections ! j) \<and>
      parentSectionIndex (sections ! j) = parentSectionIndex (sections ! i))"

text \<open>
  The example of section 8 of the spec: A (start 0, no parent), B (start 5, parent A),
  C (start 10, no parent), over a book of 10 pages.
\<close>

definition abc_sections :: "BBFSection list" where
  "abc_sections =
     [\<lparr>sectionTitleOffset = 0, sectionStartIndex = 0, parentSectionIndex = 0xFFFFFFFF\<rparr>,
      \<lparr>sectionTitleOffset = 2, sectionStartIndex = 5, parentSectionIndex = 0\<rparr>,
      \<lparr>sectionTitleOffset = 4, sectionStartIndex = 10, parentSectionIndex = 0xFFFFFFFF\<rparr>]"

definition abc_reader :: BBFReader where
  "abc_reader = reader_with_pool (pool_of [''A'', ''B'', ''C''])"

definition ten_pages :: "BBFPageEntry list" where
  "ten_pages = replicate 10 \<lparr>assetIndex = 0\<rparr>"

text \<open>
  A mux run for the examples: two pages, three section requests (the last names a parent
  that no request defines) and one metadata request; \<open>ok\<close> is what \<^verbatim>\<open>finalize\<close> returns.
\<close>

definition mux_env :: "bool \<Rightarrow> env" where
  "mux_env ok =
     \<lparr>XXH3_64bits = (\<lambda>bytes. 0), lay = packed_layout, files = Map.empty,
      directory_entries = Map.empty, reader_mem = ([], []), finalize = (\<lambda>b. ok)\<rparr>"

definition mux_opts :: options where
  "mux_opts =
     \<lparr>inputs = [''p1.png'', ''p2.avif'', ''out.bbf''],
      modeInfo = False, modeVerify = False, modeExtract = False,
      outDir = ''./extracted'', targetSection = [],
      secReqs = [\<lparr>name = ''Volume 1'', parent = [], page = 1\<rparr>,
                 \<lparr>name = ''Chapter 1'', parent = ''Volume 1'', page = 1\<rparr>,
                 \<lparr>name = ''Chapter 2'', parent = ''Volume 2'', page = 2\<rparr>],
      metaReqs = [\<lparr>k = ''Title'', v = ''Akira''\<rparr>]\<rparr>"

text \<open>
  Files and runs for the examples. \<open>demo_env H bytes\<close> has one file, \<^verbatim>\<open>book.bbf\<close>, and
  takes \<open>H\<close> for the hash function; \<open>length_hash\<close> stands in for it where an example needs
  a value. \<open>read_opts\<close> gives the three mode flags and the target section.
\<close>

definition length_hash :: "string \<Rightarrow> u64" where
  "length_hash bytes = of_nat (length bytes)"

definition demo_env :: "(string \<Rightarrow> u64) \<Rightarrow> string \<Rightarrow> env" where
  "demo_env H bytes =
     \<lparr>XXH3_64bits = H, lay = packed_layout, files = [''book.bbf'' \<mapsto> bytes],
      directory_entries = Map.empty, reader_mem = (zeros 5, zeros 60),
      finalize = (\<lambda>b. True)\<rparr>"

definition read_opts :: "bool \<Rightarrow> bool \<Rightarrow> bool \<Rightarrow> string \<Rightarrow> options" where
  "read_opts info verify extract target =
     \<lparr>inputs = [''book.bbf''], modeInfo = info, modeVerify = verify, modeExtract = extract,
      outDir = ''out'', targetSection = target, secReqs = [], metaReqs = []\<rparr>"

text \<open>
  \<open>two_hashes\<close>: two assets over the same, empty, byte range, with stored hashes 0 and 1.
  \<open>version_99\<close>: an empty book whose header carries version 99. \<open>book\<close>: three pages
  over two assets (the second with the type tag 7) and three sections A, B (in A), C.
\<close>

definition two_hashes :: string where
  "two_hashes = bbf_file 1 [] []
     [\<lparr>offset = 0, length_bytes = 0, xxh3Hash = 0, type = 2\<rparr>,
      \<lparr>offset = 0, length_bytes = 0, xxh3Hash = 1, type = 2\<rparr>] [] [] []"

definition version_99 :: string where
  "version_99 = bbf_file 99 [] [] [] [] [] []"

definition book_assets :: "BBFAssetEntry list" where
  "book_assets =
     [\<lparr>offset = 5, length_bytes = 3, xxh3Hash = 3, type = 1\<rparr>,
      \<lparr>offset = 8, length_bytes = 2, xxh3Hash = 9, type = 7\<rparr>]"

definition book_pages :: "BBFPageEntry list" where
  "book_pages = [\<lparr>assetIndex = 0\<rparr>, \<lparr>assetIndex = 1\<rparr>, \<lparr>assetIndex = 0\<rparr>]"

definition book_sections :: "BBFSection list" where
  "book_sections =
     [\<lparr>sectionTitleOffset = 0, sectionStartIndex = 0, parentSectionIndex = 0xFFFFFFFF\<rparr>,
      \<lparr>sectionTitleOffset = 2, sectionStartIndex = 1, parentSectionIndex = 0\<rparr>,
      \<lparr>sectionTitleOffset = 4, sectionStartIndex = 2, parentSectionIndex = 0xFFFFFFFF\<rparr>]"

definition book :: string where
  "book = bbf_file 1 ''abcde'' (pool_of [''A'', ''B'', ''C'']) book_assets book_pages
            book_sections []"

text \<open>The reader after \<open>open\<close> on \<open>book\<close>, with its stream at position \<open>p\<close>.\<close>

definition book_reader :: "nat \<Rightarrow> BBFReader" where
  "book_reader p =
     \<lparr>footer =
        \<lparr>footer_magic = ''BBF1'', stringPoolOffset = 10, assetTableOffset = 16,
         assetCount = 2, pageTableOffset = 66, pageCount = 3, sectionTableOffset = 78,
         sectionCount = 3, metaTableOffset = 114, keyCount = 0\<rparr>,
      header = \<lparr>magic = ''BBF1'', version = 1\<rparr>,
      stream = \<lparr>contents = book, gpos = p, failbit = False\<rparr>,
      stringPool = pool_of [''A'', ''B'', ''C'']\<rparr>"

definition two_hashes_reader :: "nat \<Rightarrow> BBFReader" where
  "two_hashes_reader p =
     \<lparr>footer =
        \<lparr>footer_magic = ''BBF1'', stringPoolOffset = 5, assetTableOffset = 5,
         assetCount = 2, pageTableOffset = 55, pageCount = 0, sectionTableOffset = 55,
         sectionCount = 0, metaTableOffset = 55, keyCount = 0\<rparr>,
      header = \<lparr>magic = ''BBF1'', version = 1\<rparr>,
      stream = \<lparr>contents = two_hashes, gpos = p, failbit = False\<rparr>,
      stringPool = []\<rparr>"





text \<open>
  The buffers that a loop over \<open>assets\<close> hashes, or writes out: \<open>read_asset\<close> on each
  asset in turn, on the stream as the asset before left it.
\<close>

fun asset_bufs :: "BBFAssetEntry list \<Rightarrow> ifstream \<Rightarrow> string list" where
  "asset_bufs [] s = []"
| "asset_bufs (a # as) s = (case read_asset a s of (buf, s') \<Rightarrow> buf # asset_bufs as s')"

text \<open>The indices of the assets whose buffer does not hash to the stored hash.\<close>

definition mismatches :: "(string \<Rightarrow> u64) \<Rightarrow> BBFAssetEntry list \<Rightarrow> string list \<Rightarrow> nat list" where
  "mismatches H assets bufs =
     filter (\<lambda>i. H (bufs ! i) \<noteq> xxh3Hash (assets ! i)) [0..<length assets]"

text \<open>
  The byte range of an asset lies in the file (and its offset is not negative as a
  stream offset); the bytes of that range.
\<close>

definition in_file :: "string \<Rightarrow> BBFAssetEntry \<Rightarrow> bool" where
  "in_file bytes a =
     (0 \<le> sint (offset a) \<and> unat (offset a) + unat (length_bytes a) \<le> length bytes)"

definition asset_bytes :: "string \<Rightarrow> BBFAssetEntry \<Rightarrow> string" where
  "asset_bytes bytes a = take (unat (length_bytes a)) (drop (unat (offset a)) bytes)"

definition mismatch_message :: "nat \<Rightarrow> event" where
  "mismatch_message i = Cerr (''Mismatch in asset '' @ to_string i @ nl)"

text \<open>
  The state of \<open>main_read\<close> when it comes to the extract block: \<open>None\<close> when \<^verbatim>\<open>main\<close> has
  returned before (no input, or \<open>open\<close> failed), else the status, the reader and the
  events after the info and verify blocks.
\<close>

definition before_extract :: "env \<Rightarrow> options \<Rightarrow> phase_result option" where
  "before_extract e opts =
     (if inputs opts = [] then None
      else
        case BBFReader_open (lay e) (files e) (reader_mem e) (hd (inputs opts)) of
          None \<Rightarrow> None
        | Some r \<Rightarrow>
            Some (case (if modeInfo opts then do_info e r [] else (None, r, [])) of
                    (Some st, r1, t1) \<Rightarrow> (Some st, r1, t1)
                  | (None, r1, t1) \<Rightarrow>
                      (if modeVerify opts then do_verify e r1 t1 else (None, r1, t1))))"

text \<open>The three tables the extract block reads, and the reader after the reads.\<close>

definition extract_tables ::
  "env \<Rightarrow> BBFReader \<Rightarrow> BBFPageEntry list \<times> BBFAssetEntry list \<times> BBFSection list \<times> BBFReader" where
  "extract_tables e r =
     (let (pages, r1) = getPages (lay e) r;
          (assets, r2) = getAssets (lay e) r1;
          (sections, r3) = getSections (lay e) r2
      in (pages, assets, sections, r3))"

text \<open>
  The line \<^verbatim>\<open>Section '...' not found.\<close>; the events that are console output; the files
  an event list writes; the asset of page \<open>n\<close>.
\<close>

definition not_found_message :: "string \<Rightarrow> event" where
  "not_found_message target =
     Cerr (''Section '' @ [CHR 0x27] @ target @ [CHR 0x27] @ '' not found.'' @ nl)"

fun console :: "event \<Rightarrow> bool" where
  "console (Cout text) = True"
| "console (Cerr text) = True"
| "console (CreateDirectories dir) = False"
| "console (WriteFile path bytes) = False"

definition written :: "event list \<Rightarrow> (string \<times> string) list" where
  "written t = concat (map (\<lambda>ev. case ev of WriteFile path bytes \<Rightarrow> [(path, bytes)] | _ \<Rightarrow> []) t)"

definition page_asset :: "BBFPageEntry list \<Rightarrow> BBFAssetEntry list \<Rightarrow> nat \<Rightarrow> BBFAssetEntry" where
  "page_asset pages assets n = assets ! unat (assetIndex (pages ! n))"

section \<open>Properties\<close>

subsection \<open>The string lookup (C3)\<close>

lemma pool_of_split:
  assumes "n < length strs"
  shows "pool_of strs = pool_of (take n strs) @ strs ! n @ CHR 0x00 # pool_of (drop (Suc n) strs)"
proof -
  have "strs = take n strs @ strs ! n # drop (Suc n) strs"
    using assms by (rule id_take_nth_drop)
  then have "pool_of strs = pool_of (take n strs @ strs ! n # drop (Suc n) strs)"
    by simp
  then show ?thesis
    by (simp add: pool_of_def)
qed

lemma getString_inside:
  assumes pool: "stringPool r = pool_of strs"
    and nonul: "\<forall>s\<in>set strs. CHR 0x00 \<notin> set s"
    and kn: "n < length strs" and p: "p \<le> length (strs ! n)"
    and off: "unat off = length (pool_of (take n strs)) + p"
  shows "getString r off = Inr (drop p (strs ! n))"
proof -
  let ?pre = "pool_of (take n strs)" and ?post = "pool_of (drop (Suc n) strs)"
  have split: "stringPool r = ?pre @ strs ! n @ CHR 0x00 # ?post"
    using pool pool_of_split [OF kn] by simp
  have rest: "drop (unat off) (stringPool r) = drop p (strs ! n) @ CHR 0x00 # ?post"
    using p by (simp add: split off)
  have "strs ! n \<in> set strs"
    using kn by simp
  with nonul have "CHR 0x00 \<notin> set (strs ! n)"
    by blast
  then have clean: "\<forall>c\<in>set (drop p (strs ! n)). c \<noteq> CHR 0x00"
    by (metis in_set_dropD)
  have tw: "takeWhile (\<lambda>c. c \<noteq> CHR 0x00) (drop p (strs ! n) @ CHR 0x00 # ?post) = drop p (strs ! n)"
    using clean by (simp add: takeWhile_tail)
  have "unat off < length (stringPool r)"
    using p by (simp add: split off)
  then show ?thesis
    by (simp add: getString_def rest tw)
qed

text \<open>
  C3 (as amended). \<open>getString\<close> has one guard: an offset at or past the end of the pool
  gives the string \<^verbatim>\<open>OFFSET_ERR\<close>, in band. Below the end of the pool nothing is
  checked: in a pool of null-terminated strings, the offset of byte \<open>p\<close> of string \<open>n\<close>
  (\<open>p\<close> may be its length, the position of its null byte) gives the rest of that string
  from byte \<open>p\<close> on; for \<open>p = 0\<close> that is the string itself.
\<close>

theorem getString_sentinel_or_suffix:
  "stringPool r = pool_of strs \<Longrightarrow> (\<forall>s\<in>set strs. CHR 0x00 \<notin> set s) \<Longrightarrow>
     (length (stringPool r) \<le> unat off \<longrightarrow> getString r off = Inr ''OFFSET_ERR'') \<and>
     (n < length strs \<and> p \<le> length (strs ! n) \<and>
        unat off = length (pool_of (take n strs)) + p \<longrightarrow>
      getString r off = Inr (drop p (strs ! n)))"
  using getString_inside by (auto simp: getString_def)

text \<open>
  C3 as stated fails: offset 1 points into the middle of the stored string \<^verbatim>\<open>abc\<close>,
  and the lookup returns the string \<^verbatim>\<open>bc\<close>.
\<close>

theorem getString_mid_string_counterexample:
  "getString (reader_with_pool (''abc'' @ [CHR 0x00])) 1 = Inr ''bc''"
  by (simp add: getString_def reader_with_pool_def)

theorem getString_sentinel_or_suffix_witness:
  "stringPool (reader_with_pool (pool_of [''abc'', ''de''])) = pool_of [''abc'', ''de''] \<and>
   length (stringPool (reader_with_pool (pool_of [''abc'', ''de'']))) \<le> unat (7 :: u32) \<and>
   getString (reader_with_pool (pool_of [''abc'', ''de''])) 7 = Inr ''OFFSET_ERR'' \<and>
   getString (reader_with_pool (pool_of [''abc'', ''de''])) 5 = Inr ''e'' \<and>
   getString (reader_with_pool (pool_of [''abc'', ''de''])) 4 = Inr ''de''"
proof -
  let ?r = "reader_with_pool (pool_of [''abc'', ''de''])"
  have pool: "stringPool ?r = pool_of [''abc'', ''de'']"
    by (simp add: reader_with_pool_def)
  have nonul: "\<forall>s\<in>set [''abc'', ''de'']. CHR 0x00 \<notin> set s"
    by simp
  have len: "length (stringPool ?r) \<le> unat (7 :: u32)"
    by (simp add: reader_with_pool_def pool_of_def)
  note inst = getString_sentinel_or_suffix [OF pool nonul]
  have a: "getString ?r 7 = Inr ''OFFSET_ERR''"
    using inst [where off = 7] len by blast
  have "getString ?r 5 = Inr (drop 1 ([''abc'', ''de''] ! 1))"
    using inst [where off = 5 and n = 1 and p = 1] by (simp add: pool_of_def)
  then have b: "getString ?r 5 = Inr ''e''"
    by simp
  have "getString ?r 4 = Inr (drop 0 ([''abc'', ''de''] ! 1))"
    using inst [where off = 4 and n = 1 and p = 0] by (simp add: pool_of_def)
  then have c: "getString ?r 4 = Inr ''de''"
    by simp
  from pool len a b c show ?thesis
    by blast
qed

subsection \<open>The page range of a section (C2)\<close>

lemma find_end_none:
  "\<forall>s\<in>set rest. \<not> (start < sectionStartIndex s \<and> parentSectionIndex s = par) \<Longrightarrow>
   find_end start par e rest = e"
  by (induction rest) auto

lemma find_end_first:
  "j < length rest \<Longrightarrow>
   start < sectionStartIndex (rest ! j) \<and> parentSectionIndex (rest ! j) = par \<Longrightarrow>
   \<forall>m<j. \<not> (start < sectionStartIndex (rest ! m) \<and> parentSectionIndex (rest ! m) = par) \<Longrightarrow>
   find_end start par e rest = sectionStartIndex (rest ! j)"
proof (induction rest arbitrary: j)
  case Nil
  then show ?case by simp
next
  case (Cons s rest)
  show ?case
  proof (cases j)
    case 0
    with Cons.prems show ?thesis by simp
  next
    case (Suc j')
    from Cons.prems(3) Suc have head: "\<not> (start < sectionStartIndex s \<and> parentSectionIndex s = par)"
      by auto
    from Cons.prems(3) Suc
    have "\<forall>m<j'. \<not> (start < sectionStartIndex (rest ! m) \<and> parentSectionIndex (rest ! m) = par)"
      by auto
    with Cons.IH [of j'] Cons.prems(1,2) Suc
    have "find_end start par e rest = sectionStartIndex (rest ! j')"
      by simp
    with head Suc show ?thesis by auto
  qed
qed

lemma find_section_at:
  "i < length sections \<Longrightarrow> title_is r (sections ! i) target \<Longrightarrow>
   \<forall>m<i. title_differs r (sections ! m) target \<Longrightarrow>
   find_section r n sections target =
     Inr (Some (sectionStartIndex (sections ! i),
                find_end (sectionStartIndex (sections ! i)) (parentSectionIndex (sections ! i)) n
                  (drop (Suc i) sections)))"
proof (induction sections arbitrary: i)
  case Nil
  then show ?case by simp
next
  case (Cons s sections)
  show ?case
  proof (cases i)
    case 0
    with Cons.prems(2) show ?thesis
      by (auto simp: title_is_def split: sum.splits)
  next
    case (Suc i')
    from Cons.prems(3) Suc have "title_differs r s target"
      by auto
    then have skip: "find_section r n (s # sections) target = find_section r n sections target"
      by (auto simp: title_differs_def split: sum.splits)
    from Cons.prems(3) Suc have "\<forall>m<i'. title_differs r (sections ! m) target"
      by auto
    with Cons.IH [of i'] Cons.prems(1,2) Suc skip show ?thesis
      by simp
  qed
qed

lemma abc_titles:
  "getString abc_reader 0 = Inr ''A''" "getString abc_reader 2 = Inr ''B''"
  "getString abc_reader 4 = Inr ''C''"
  by (simp_all add: abc_reader_def reader_with_pool_def pool_of_def getString_def)

lemma trimQuotes_short [simp]: "trimQuotes [c] = [c]"
  by (simp add: trimQuotes_def)

lemma read_table_length: "length (fst (read_table sz dec off count s)) = unat count"
  by (simp add: read_table_def Let_def split: prod.splits)

lemma getPages_length:
  "getPages l r = (pages, r1) \<Longrightarrow> length pages = unat (pageCount (footer r))"
  using read_table_length [of "sizeof_BBFPageEntry l" "as_BBFPageEntry l"
      "pageTableOffset (footer r)" "pageCount (footer r)" "stream r"]
  by (auto simp: getPages_def Let_def split: prod.splits)

text \<open>
  C2. Let section \<open>i\<close> be the one the extract loop stops at: its title is the target and
  no earlier title is. Then the range starts at its \<open>sectionStartIndex\<close>. It ends at the
  page count (\<^verbatim>\<open>(uint32_t)pages.size()\<close>, which is \<open>pageCount\<close> by \<open>getPages_length\<close>)
  when no later section of the table starts later with the same parent index, and
  otherwise at the start of the first such section. In the spec's example A resolves to
  \<open>[0,10)\<close>, B to \<open>[5,10)\<close> and C to \<open>[10,10)\<close>.
\<close>

theorem extract_range_resolution:
  "(target \<noteq> [] \<and> i < length sections \<and> title_is r (sections ! i) target \<and>
    (\<forall>m<i. title_differs r (sections ! m) target) \<longrightarrow>
    (\<exists>e. resolve_range r pages sections target
            = Inr (Some (sectionStartIndex (sections ! i), e)) \<and>
         ((\<forall>j. i < j \<and> j < length sections \<longrightarrow> \<not> later_sibling sections i j) \<longrightarrow>
            e = of_nat (length pages)) \<and>
         (\<forall>j. i < j \<and> j < length sections \<and> later_sibling sections i j \<and>
              (\<forall>m. i < m \<and> m < j \<longrightarrow> \<not> later_sibling sections i m) \<longrightarrow>
              e = sectionStartIndex (sections ! j)))) \<and>
   resolve_range abc_reader ten_pages abc_sections ''A'' = Inr (Some (0, 10)) \<and>
   resolve_range abc_reader ten_pages abc_sections ''B'' = Inr (Some (5, 10)) \<and>
   resolve_range abc_reader ten_pages abc_sections ''C'' = Inr (Some (10, 10))"
proof (intro conjI impI)
  assume hyp: "target \<noteq> [] \<and> i < length sections \<and> title_is r (sections ! i) target \<and>
    (\<forall>m<i. title_differs r (sections ! m) target)"
  let ?start = "sectionStartIndex (sections ! i)" and ?par = "parentSectionIndex (sections ! i)"
  let ?rest = "drop (Suc i) sections"
  let ?e = "find_end ?start ?par (of_nat (length pages)) ?rest"
  from hyp have res: "resolve_range r pages sections target = Inr (Some (?start, ?e))"
    by (simp add: resolve_range_def find_section_at)
  have none: "?e = of_nat (length pages)"
    if "\<forall>j. i < j \<and> j < length sections \<longrightarrow> \<not> later_sibling sections i j"
  proof (rule find_end_none, rule ballI)
    fix s assume "s \<in> set ?rest"
    then obtain m where m: "m < length ?rest" "s = ?rest ! m"
      by (auto simp: in_set_conv_nth)
    then have "s = sections ! (Suc i + m)" "Suc i + m < length sections"
      by auto
    with that [rule_format, of "Suc i + m"]
    show "\<not> (?start < sectionStartIndex s \<and> parentSectionIndex s = ?par)"
      by (simp add: later_sibling_def)
  qed
  have first: "?e = sectionStartIndex (sections ! j)"
    if "i < j \<and> j < length sections \<and> later_sibling sections i j \<and>
        (\<forall>m. i < m \<and> m < j \<longrightarrow> \<not> later_sibling sections i m)" for j
  proof -
    define j' where "j' = j - Suc i"
    with that have j': "j = Suc i + j'"
      by simp
    with that have a: "j' < length ?rest" by auto
    from that j' have b: "?start < sectionStartIndex (?rest ! j') \<and>
        parentSectionIndex (?rest ! j') = ?par"
      by (simp add: later_sibling_def)
    have c: "\<forall>m<j'. \<not> (?start < sectionStartIndex (?rest ! m) \<and>
        parentSectionIndex (?rest ! m) = ?par)"
    proof (intro allI impI)
      fix m assume "m < j'"
      with that j' have "\<not> later_sibling sections i (Suc i + m)" "Suc i + m < length sections"
        by auto
      then show "\<not> (?start < sectionStartIndex (?rest ! m) \<and>
          parentSectionIndex (?rest ! m) = ?par)"
        by (simp add: later_sibling_def)
    qed
    from find_end_first [OF a b c] j' a show ?thesis
      by simp
  qed
  from res none first
  show "\<exists>e. resolve_range r pages sections target
            = Inr (Some (sectionStartIndex (sections ! i), e)) \<and>
         ((\<forall>j. i < j \<and> j < length sections \<longrightarrow> \<not> later_sibling sections i j) \<longrightarrow>
            e = of_nat (length pages)) \<and>
         (\<forall>j. i < j \<and> j < length sections \<and> later_sibling sections i j \<and>
              (\<forall>m. i < m \<and> m < j \<longrightarrow> \<not> later_sibling sections i m) \<longrightarrow>
              e = sectionStartIndex (sections ! j))"
    by blast
next
  show "resolve_range abc_reader ten_pages abc_sections ''A'' = Inr (Some (0, 10))"
    by (simp add: resolve_range_def abc_sections_def abc_titles ten_pages_def)
next
  show "resolve_range abc_reader ten_pages abc_sections ''B'' = Inr (Some (5, 10))"
    by (simp add: resolve_range_def abc_sections_def abc_titles ten_pages_def)
next
  show "resolve_range abc_reader ten_pages abc_sections ''C'' = Inr (Some (10, 10))"
    by (simp add: resolve_range_def abc_sections_def abc_titles ten_pages_def)
qed


theorem extract_range_resolution_witness:
  "''A'' \<noteq> [] \<and> 0 < length abc_sections \<and> title_is abc_reader (abc_sections ! 0) ''A'' \<and>
   2 < length abc_sections \<and> later_sibling abc_sections 0 2 \<and>
   \<not> later_sibling abc_sections 0 1 \<and>
   resolve_range abc_reader ten_pages abc_sections ''A''
     = Inr (Some (sectionStartIndex (abc_sections ! 0), sectionStartIndex (abc_sections ! 2)))"
proof -
  have h1: "0 < length abc_sections" "2 < length abc_sections"
    by (simp_all add: abc_sections_def)
  have h2: "title_is abc_reader (abc_sections ! 0) ''A''"
    by (simp add: title_is_def abc_sections_def abc_titles)
  have h3: "later_sibling abc_sections 0 2" "\<not> later_sibling abc_sections 0 1"
    by (simp_all add: later_sibling_def abc_sections_def)
  have h4: "\<forall>m. 0 < m \<and> m < 2 \<longrightarrow> \<not> later_sibling abc_sections 0 m"
  proof (intro allI impI)
    fix m :: nat assume "0 < m \<and> m < 2"
    then have "m = 1" by simp
    with h3 show "\<not> later_sibling abc_sections 0 m" by simp
  qed
  from extract_range_resolution
    [where target = "''A''" and i = 0 and sections = abc_sections and r = abc_reader
       and pages = ten_pages, THEN conjunct1] h1 h2
  obtain e where
    e: "resolve_range abc_reader ten_pages abc_sections ''A''
          = Inr (Some (sectionStartIndex (abc_sections ! 0), e))"
    and first: "\<forall>j. 0 < j \<and> j < length abc_sections \<and> later_sibling abc_sections 0 j \<and>
              (\<forall>m. 0 < m \<and> m < j \<longrightarrow> \<not> later_sibling abc_sections 0 m) \<longrightarrow>
              e = sectionStartIndex (abc_sections ! j)"
    by auto
  from first [rule_format, of 2] h1 h3 h4 have "e = sectionStartIndex (abc_sections ! 2)"
    by simp
  with e h1 h2 h3 show ?thesis
    by simp
qed

subsection \<open>The parent index of a muxed section (C7)\<close>

lemma builderSections_addSection:
  "builderSections (addSection b title st p) =
     builderSections b @ [\<lparr>sectionTitleOffset = of_nat (length (builderStringPool b)),
                          sectionStartIndex = st, parentSectionIndex = p\<rparr>]"
  by (simp add: addSection_def intern_def)

lemma builderSections_addPages:
  "builderSections (foldl (\<lambda>b p. addPage b p (f p)) b ps) = builderSections b"
  by (induction ps arbitrary: b) (simp_all add: addPage_def)

lemma builderSections_addMetadata:
  "builderSections (foldl (\<lambda>b m. addMetadata b (f m) (g m)) b ms) = builderSections b"
  by (induction ms arbitrary: b) (simp_all add: addMetadata_def intern_def)

lemma unat_of_nat_le: "unat (of_nat d :: u32) \<le> d"
  by (simp add: unat_of_nat)

lemma add_sections_parents:
  assumes "length (builderSections b) = d" and "c = of_nat d"
    and "\<forall>nm idx. m nm = Some idx \<longrightarrow> unat idx < d" and "dom m = N"
  shows "\<exists>new. builderSections (add_sections ss m c b) = builderSections b @ new \<and>
           length new = length ss \<and>
           (\<forall>n<length ss.
              (parent (ss ! n) = [] \<or> parent (ss ! n) \<notin> N \<union> name ` set (take n ss)
                 \<longrightarrow> parentSectionIndex (new ! n) = 0xFFFFFFFF) \<and>
              (parentSectionIndex (new ! n) \<noteq> 0xFFFFFFFF
                 \<longrightarrow> unat (parentSectionIndex (new ! n)) < d + n))"
  using assms
proof (induction ss arbitrary: m c b d N)
  case Nil
  then show ?case by simp
next
  case (Cons s ss)
  define parentIdx where "parentIdx =
     (if parent s \<noteq> [] then (case m (parent s) of Some idx \<Rightarrow> idx | None \<Rightarrow> 0xFFFFFFFF)
      else 0xFFFFFFFF)"
  define b' where "b' = addSection b (name s) (page s - 1) parentIdx"
  define m' where "m' = m(name s \<mapsto> c)"
  have step: "add_sections (s # ss) m c b = add_sections ss m' (c + 1) b'"
    by (simp add: parentIdx_def b'_def m'_def)
  obtain sec where sec: "builderSections b' = builderSections b @ [sec]"
    "parentSectionIndex sec = parentIdx"
    by (simp add: b'_def builderSections_addSection)
  have undefined_parent: "parent s = [] \<or> parent s \<notin> N \<Longrightarrow> parentIdx = 0xFFFFFFFF"
    using Cons.prems(4) by (auto simp: parentIdx_def split: option.splits)
  have bound: "parentIdx \<noteq> 0xFFFFFFFF \<Longrightarrow> unat parentIdx < d"
    using Cons.prems(3) by (auto simp: parentIdx_def split: option.splits if_splits)
  have len': "length (builderSections b') = Suc d"
    using sec Cons.prems(1) by simp
  have c': "c + 1 = of_nat (Suc d)"
    using Cons.prems(2) by simp
  have m'_bound: "\<forall>nm idx. m' nm = Some idx \<longrightarrow> unat idx < Suc d"
  proof (intro allI impI)
    fix nm idx assume "m' nm = Some idx"
    then have "idx = c \<or> m nm = Some idx"
      by (auto simp: m'_def split: if_splits)
    then show "unat idx < Suc d"
    proof
      assume "idx = c"
      with Cons.prems(2) unat_of_nat_le [of d] show ?thesis by simp
    next
      assume "m nm = Some idx"
      with Cons.prems(3) show ?thesis by (simp add: less_Suc_eq)
    qed
  qed
  have dom': "dom m' = insert (name s) N"
    using Cons.prems(4) by (simp add: m'_def)
  from Cons.IH [OF len' c' m'_bound dom']
  obtain new where new: "builderSections (add_sections ss m' (c + 1) b') = builderSections b' @ new"
    "length new = length ss"
    and rest: "\<forall>n<length ss.
              (parent (ss ! n) = [] \<or> parent (ss ! n) \<notin> insert (name s) N \<union> name ` set (take n ss)
                 \<longrightarrow> parentSectionIndex (new ! n) = 0xFFFFFFFF) \<and>
              (parentSectionIndex (new ! n) \<noteq> 0xFFFFFFFF
                 \<longrightarrow> unat (parentSectionIndex (new ! n)) < Suc d + n)"
    by blast
  have all: "\<forall>n<length (s # ss).
              (parent ((s # ss) ! n) = [] \<or> parent ((s # ss) ! n) \<notin> N \<union> name ` set (take n (s # ss))
                 \<longrightarrow> parentSectionIndex ((sec # new) ! n) = 0xFFFFFFFF) \<and>
              (parentSectionIndex ((sec # new) ! n) \<noteq> 0xFFFFFFFF
                 \<longrightarrow> unat (parentSectionIndex ((sec # new) ! n)) < d + n)"
  proof (intro allI impI)
    fix n assume n: "n < length (s # ss)"
    show "(parent ((s # ss) ! n) = [] \<or> parent ((s # ss) ! n) \<notin> N \<union> name ` set (take n (s # ss))
                 \<longrightarrow> parentSectionIndex ((sec # new) ! n) = 0xFFFFFFFF) \<and>
              (parentSectionIndex ((sec # new) ! n) \<noteq> 0xFFFFFFFF
                 \<longrightarrow> unat (parentSectionIndex ((sec # new) ! n)) < d + n)"
    proof (cases n)
      case 0
      with sec(2) undefined_parent bound show ?thesis by auto
    next
      case (Suc n')
      with n have "n' < length ss" by simp
      with rest Suc show ?thesis by auto
    qed
  qed
  from step sec(1) new all show ?case
    by (intro exI [of _ "sec # new"]) simp
qed


text \<open>
  C7. The sections that \<^verbatim>\<open>main\<close> hands to the builder are the section requests, in
  order. Request \<open>n\<close> is stored with the parent index \<^verbatim>\<open>0xFFFFFFFF\<close> when it names no
  parent or a parent that none of the requests before it defines, and muxing goes on
  (exit code 0). A stored parent index other than \<^verbatim>\<open>0xFFFFFFFF\<close> is below \<open>n\<close>.
\<close>

theorem mux_section_parents:
  "n < length (secReqs opts) \<Longrightarrow>
     length (builderSections (mux_builder e opts)) = length (secReqs opts) \<and>
     (parent (secReqs opts ! n) = [] \<or>
      parent (secReqs opts ! n) \<notin> name ` set (take n (secReqs opts))
        \<longrightarrow> parentSectionIndex (builderSections (mux_builder e opts) ! n) = 0xFFFFFFFF) \<and>
     (parentSectionIndex (builderSections (mux_builder e opts) ! n) \<noteq> 0xFFFFFFFF
        \<longrightarrow> unat (parentSectionIndex (builderSections (mux_builder e opts) ! n)) < n) \<and>
     (2 \<le> length (inputs opts) \<longrightarrow> fst (main_mux e opts) = Exit 0)"
proof -
  assume n: "n < length (secReqs opts)"
  define b1 where "b1 = foldl (\<lambda>b p.
      addPage b p (if extension p = ''.avif'' \<or> extension p = ''.AVIF'' then 1 else 2))
      (new_builder (last (inputs opts)))
      (sort (concat (map (\<lambda>path. case directory_entries e path of
                                   Some entries \<Rightarrow> entries | None \<Rightarrow> [path])
                      (butlast (inputs opts)))))"
  have empty: "builderSections b1 = []"
    unfolding b1_def by (simp add: builderSections_addPages new_builder_def)
  have stored: "builderSections (mux_builder e opts)
      = builderSections (add_sections (secReqs opts) Map.empty 0 b1)"
    by (simp add: mux_builder_def Let_def b1_def builderSections_addMetadata)
  have "\<exists>new. builderSections (add_sections (secReqs opts) Map.empty 0 b1)
           = builderSections b1 @ new \<and>
           length new = length (secReqs opts) \<and>
           (\<forall>n<length (secReqs opts).
              (parent (secReqs opts ! n) = [] \<or>
               parent (secReqs opts ! n) \<notin> {} \<union> name ` set (take n (secReqs opts))
                 \<longrightarrow> parentSectionIndex (new ! n) = 0xFFFFFFFF) \<and>
              (parentSectionIndex (new ! n) \<noteq> 0xFFFFFFFF
                 \<longrightarrow> unat (parentSectionIndex (new ! n)) < 0 + n))"
    by (rule add_sections_parents) (simp_all add: empty)
  with n empty stored show ?thesis
    by (auto simp: main_mux_def)
qed

theorem mux_section_parents_witness:
  "2 < length (secReqs mux_opts) \<and>
   parent (secReqs mux_opts ! 2) \<notin> name ` set (take 2 (secReqs mux_opts)) \<and>
   2 \<le> length (inputs mux_opts) \<and>
   length (builderSections (mux_builder (mux_env True) mux_opts)) = 3 \<and>
   parentSectionIndex (builderSections (mux_builder (mux_env True) mux_opts) ! 2) = 0xFFFFFFFF \<and>
   fst (main_mux (mux_env True) mux_opts) = Exit 0"
proof -
  have h1: "2 < length (secReqs mux_opts)"
    by (simp add: mux_opts_def)
  have h2: "parent (secReqs mux_opts ! 2) \<notin> name ` set (take 2 (secReqs mux_opts))"
    by (simp add: mux_opts_def)
  have h3: "2 \<le> length (inputs mux_opts)"
    by (simp add: mux_opts_def)
  have h4: "length (secReqs mux_opts) = 3"
    by (simp add: mux_opts_def)
  from mux_section_parents [OF h1, of "mux_env True"] h2 h3 h4 h1 show ?thesis
    by simp
qed

subsection \<open>The exit code of muxing (C9)\<close>

text \<open>
  C9. When \<^verbatim>\<open>main\<close> muxes (no mode flag, at least one input and the output name) its
  exit code is 0 whatever \<^verbatim>\<open>finalize\<close> returns; the result of \<^verbatim>\<open>finalize\<close> decides only
  whether the success message is printed. (With fewer than two file arguments \<^verbatim>\<open>main\<close>
  returns 1 before it creates a builder.)
\<close>

theorem mux_exit_code_ignores_finalize:
  "\<not> modeInfo opts \<Longrightarrow> \<not> modeVerify opts \<Longrightarrow> \<not> modeExtract opts \<Longrightarrow>
   2 \<le> length (inputs opts) \<Longrightarrow>
     fst (main e opts) = Exit 0 \<and>
     snd (main e opts) =
       (if finalize e (mux_builder e opts)
        then [Cout (''Successfully created '' @ last (inputs opts) @ nl)]
        else [])"
  by (simp add: main_def main_mux_def)

theorem mux_exit_code_ignores_finalize_witness:
  "\<not> modeInfo mux_opts \<and> \<not> modeVerify mux_opts \<and> \<not> modeExtract mux_opts \<and>
   2 \<le> length (inputs mux_opts) \<and>
   \<not> finalize (mux_env False) (mux_builder (mux_env False) mux_opts) \<and>
   main (mux_env False) mux_opts = (Exit 0, []) \<and>
   main (mux_env True) mux_opts = (Exit 0, [Cout (''Successfully created out.bbf'' @ nl)])"
proof -
  have h: "\<not> modeInfo mux_opts" "\<not> modeVerify mux_opts" "\<not> modeExtract mux_opts"
    "2 \<le> length (inputs mux_opts)"
    by (simp_all add: mux_opts_def)
  have f: "\<not> finalize (mux_env False) (mux_builder (mux_env False) mux_opts)"
    "finalize (mux_env True) (mux_builder (mux_env True) mux_opts)"
    by (simp_all add: mux_env_def)
  have l: "last (inputs mux_opts) = ''out.bbf''"
    by (simp add: mux_opts_def)
  from mux_exit_code_ignores_finalize [OF h, of "mux_env False"] f(1)
  have a: "main (mux_env False) mux_opts = (Exit 0, [])"
    by (simp add: prod_eq_iff)
  from mux_exit_code_ignores_finalize [OF h, of "mux_env True"] f(2) l
  have b: "main (mux_env True) mux_opts = (Exit 0, [Cout (''Successfully created out.bbf'' @ nl)])"
    by (simp add: prod_eq_iff)
  from h f a b show ?thesis
    by simp
qed

subsection \<open>The example files, evaluated\<close>

lemma le_bytes_numeral [simp]:
  "le_bytes (numeral n) x = byte x # le_bytes (pred_numeral n) (x div 256)"
proof -
  have "le_bytes (Suc (pred_numeral n)) x = byte x # le_bytes (pred_numeral n) (x div 256)"
    by (rule le_bytes.simps)
  then show ?thesis
    by (simp only: numeral_eq_Suc)
qed

lemma upt_small: "[0..<2] = [0, 1]" "[0..<3] = [0, 1, 2]"
  by (simp_all add: eval_nat_numeral)

lemmas file_defs =
  bbf_file_def bytes_of_asset_def bytes_of_page_def bytes_of_section_def
  bytes_of_metadata_def pool_of_def Let_def

lemmas reader_defs =
  packed_layout_def seekg_def read_bytes_def read_table_def zeros_def field_def le_word_def
  Let_def upt_small

lemma book_bytes:
  "book =
     [CHR ''B'', CHR ''B'', CHR ''F'', CHR ''1'', CHR 0x01, CHR ''a'', CHR ''b'',
      CHR ''c'', CHR ''d'', CHR ''e'', CHR ''A'', CHR 0x00, CHR ''B'', CHR 0x00, CHR ''C'',
      CHR 0x00, CHR 0x05, CHR 0x00, CHR 0x00, CHR 0x00, CHR 0x00, CHR 0x00, CHR 0x00,
      CHR 0x00, CHR 0x03, CHR 0x00, CHR 0x00, CHR 0x00, CHR 0x00, CHR 0x00, CHR 0x00,
      CHR 0x00, CHR 0x03, CHR 0x00, CHR 0x00, CHR 0x00, CHR 0x00, CHR 0x00, CHR 0x00,
      CHR 0x00, CHR 0x01, CHR 0x08, CHR 0x00, CHR 0x00, CHR 0x00, CHR 0x00, CHR 0x00,
      CHR 0x00, CHR 0x00, CHR 0x02, CHR 0x00, CHR 0x00, CHR 0x00, CHR 0x00, CHR 0x00,
      CHR 0x00, CHR 0x00, CHR 0x09, CHR 0x00, CHR 0x00, CHR 0x00, CHR 0x00, CHR 0x00,
      CHR 0x00, CHR 0x00, CHR 0x07, CHR 0x00, CHR 0x00, CHR 0x00, CHR 0x00, CHR 0x01,
      CHR 0x00, CHR 0x00, CHR 0x00, CHR 0x00, CHR 0x00, CHR 0x00, CHR 0x00, CHR 0x00,
      CHR 0x00, CHR 0x00, CHR 0x00, CHR 0x00, CHR 0x00, CHR 0x00, CHR 0x00, CHR 0xFF,
      CHR 0xFF, CHR 0xFF, CHR 0xFF, CHR 0x02, CHR 0x00, CHR 0x00, CHR 0x00, CHR 0x01,
      CHR 0x00, CHR 0x00, CHR 0x00, CHR 0x00, CHR 0x00, CHR 0x00, CHR 0x00, CHR 0x04,
      CHR 0x00, CHR 0x00, CHR 0x00, CHR 0x02, CHR 0x00, CHR 0x00, CHR 0x00, CHR 0xFF,
      CHR 0xFF, CHR 0xFF, CHR 0xFF, CHR ''B'', CHR ''B'', CHR ''F'', CHR ''1'', CHR 0x0A,
      CHR 0x00, CHR 0x00, CHR 0x00, CHR 0x00, CHR 0x00, CHR 0x00, CHR 0x00, CHR 0x10,
      CHR 0x00, CHR 0x00, CHR 0x00, CHR 0x00, CHR 0x00, CHR 0x00, CHR 0x00, CHR 0x02,
      CHR 0x00, CHR 0x00, CHR 0x00, CHR ''B'', CHR 0x00, CHR 0x00, CHR 0x00, CHR 0x00,
      CHR 0x00, CHR 0x00, CHR 0x00, CHR 0x03, CHR 0x00, CHR 0x00, CHR 0x00, CHR ''N'',
      CHR 0x00, CHR 0x00, CHR 0x00, CHR 0x00, CHR 0x00, CHR 0x00, CHR 0x00, CHR 0x03,
      CHR 0x00, CHR 0x00, CHR 0x00, CHR ''r'', CHR 0x00, CHR 0x00, CHR 0x00, CHR 0x00,
      CHR 0x00, CHR 0x00, CHR 0x00, CHR 0x00, CHR 0x00, CHR 0x00, CHR 0x00]"
  apply (simp add: book_def book_assets_def book_pages_def book_sections_def file_defs)
  apply (simp add: byte_def)
  done

lemma two_hashes_bytes:
  "two_hashes =
     [CHR ''B'', CHR ''B'', CHR ''F'', CHR ''1'', CHR 0x01, CHR 0x00, CHR 0x00, CHR 0x00,
      CHR 0x00, CHR 0x00, CHR 0x00, CHR 0x00, CHR 0x00, CHR 0x00, CHR 0x00, CHR 0x00,
      CHR 0x00, CHR 0x00, CHR 0x00, CHR 0x00, CHR 0x00, CHR 0x00, CHR 0x00, CHR 0x00,
      CHR 0x00, CHR 0x00, CHR 0x00, CHR 0x00, CHR 0x00, CHR 0x02, CHR 0x00, CHR 0x00,
      CHR 0x00, CHR 0x00, CHR 0x00, CHR 0x00, CHR 0x00, CHR 0x00, CHR 0x00, CHR 0x00,
      CHR 0x00, CHR 0x00, CHR 0x00, CHR 0x00, CHR 0x00, CHR 0x00, CHR 0x01, CHR 0x00,
      CHR 0x00, CHR 0x00, CHR 0x00, CHR 0x00, CHR 0x00, CHR 0x00, CHR 0x02, CHR ''B'',
      CHR ''B'', CHR ''F'', CHR ''1'', CHR 0x05, CHR 0x00, CHR 0x00, CHR 0x00, CHR 0x00,
      CHR 0x00, CHR 0x00, CHR 0x00, CHR 0x05, CHR 0x00, CHR 0x00, CHR 0x00, CHR 0x00,
      CHR 0x00, CHR 0x00, CHR 0x00, CHR 0x02, CHR 0x00, CHR 0x00, CHR 0x00, CHR ''7'',
      CHR 0x00, CHR 0x00, CHR 0x00, CHR 0x00, CHR 0x00, CHR 0x00, CHR 0x00, CHR 0x00,
      CHR 0x00, CHR 0x00, CHR 0x00, CHR ''7'', CHR 0x00, CHR 0x00, CHR 0x00, CHR 0x00,
      CHR 0x00, CHR 0x00, CHR 0x00, CHR 0x00, CHR 0x00, CHR 0x00, CHR 0x00, CHR ''7'',
      CHR 0x00, CHR 0x00, CHR 0x00, CHR 0x00, CHR 0x00, CHR 0x00, CHR 0x00, CHR 0x00,
      CHR 0x00, CHR 0x00, CHR 0x00]"
  apply (simp add: two_hashes_def file_defs)
  apply (simp add: byte_def)
  done

lemma version_99_bytes:
  "version_99 =
     [CHR ''B'', CHR ''B'', CHR ''F'', CHR ''1'', CHR ''c'', CHR ''B'', CHR ''B'',
      CHR ''F'', CHR ''1'', CHR 0x05, CHR 0x00, CHR 0x00, CHR 0x00, CHR 0x00, CHR 0x00,
      CHR 0x00, CHR 0x00, CHR 0x05, CHR 0x00, CHR 0x00, CHR 0x00, CHR 0x00, CHR 0x00,
      CHR 0x00, CHR 0x00, CHR 0x00, CHR 0x00, CHR 0x00, CHR 0x00, CHR 0x05, CHR 0x00,
      CHR 0x00, CHR 0x00, CHR 0x00, CHR 0x00, CHR 0x00, CHR 0x00, CHR 0x00, CHR 0x00,
      CHR 0x00, CHR 0x00, CHR 0x05, CHR 0x00, CHR 0x00, CHR 0x00, CHR 0x00, CHR 0x00,
      CHR 0x00, CHR 0x00, CHR 0x00, CHR 0x00, CHR 0x00, CHR 0x00, CHR 0x05, CHR 0x00,
      CHR 0x00, CHR 0x00, CHR 0x00, CHR 0x00, CHR 0x00, CHR 0x00, CHR 0x00, CHR 0x00,
      CHR 0x00, CHR 0x00]"
  apply (simp add: version_99_def file_defs)
  apply (simp add: byte_def)
  done

lemma open_book:
  "BBFReader_open packed_layout [''book.bbf'' \<mapsto> book] (zeros 5, zeros 60) ''book.bbf''
     = Some (book_reader 16)"
  by (simp add: BBFReader_open_def book_reader_def book_bytes reader_defs pool_of_def)

lemma getPages_book: "getPages packed_layout (book_reader p) = (book_pages, book_reader 78)"
  by (simp add: getPages_def book_reader_def book_bytes reader_defs book_pages_def)

lemma getAssets_book: "getAssets packed_layout (book_reader p) = (book_assets, book_reader 66)"
  by (simp add: getAssets_def book_reader_def book_bytes reader_defs book_assets_def)

lemma getSections_book:
  "getSections packed_layout (book_reader p) = (book_sections, book_reader 114)"
  by (simp add: getSections_def book_reader_def book_bytes reader_defs book_sections_def)

lemma open_two_hashes:
  "BBFReader_open packed_layout [''book.bbf'' \<mapsto> two_hashes] (zeros 5, zeros 60) ''book.bbf''
     = Some (two_hashes_reader 5)"
  by (simp add: BBFReader_open_def two_hashes_reader_def two_hashes_bytes reader_defs)

lemma getAssets_two_hashes:
  "getAssets packed_layout (two_hashes_reader p) =
     ([\<lparr>offset = 0, length_bytes = 0, xxh3Hash = 0, type = 2\<rparr>,
       \<lparr>offset = 0, length_bytes = 0, xxh3Hash = 1, type = 2\<rparr>], two_hashes_reader 55)"
  by (simp add: getAssets_def two_hashes_reader_def two_hashes_bytes reader_defs)




lemma open_version_99:
  "map_option (\<lambda>r. version (header r))
     (BBFReader_open packed_layout [''book.bbf'' \<mapsto> version_99] (zeros 5, zeros 60)
        ''book.bbf'') = Some 99"
  by (simp add: BBFReader_open_def version_99_bytes reader_defs)

subsection \<open>The integrity check (C5, C1)\<close>

lemma mismatches_Cons:
  "mismatches H (a # as) (b # bufs) =
     (if H b \<noteq> xxh3Hash a then [0] else []) @ map Suc (mismatches H as bufs)"
proof -
  have "[0..<length (a # as)] = 0 # map Suc [0..<length as]"
    by (simp add: upt_conv_Cons map_Suc_upt del: upt_Suc)
  then show ?thesis
    by (simp add: mismatches_def filter_map comp_def del: upt_Suc)
qed

lemma verify_loop_events:
  "\<exists>s'. verify_loop H as i s clean t =
     (s', clean \<and> mismatches H as (asset_bufs as s) = [],
      t @ map (\<lambda>j. mismatch_message (i + j)) (mismatches H as (asset_bufs as s)))"
proof (induction as arbitrary: i s clean t)
  case Nil
  show ?case by (simp add: mismatches_def)
next
  case (Cons a as)
  obtain buf s1 where rd: "read_asset a s = (buf, s1)"
    by (cases "read_asset a s")
  show ?case
  proof (cases "H buf \<noteq> xxh3Hash a")
    case True
    from Cons.IH [of "Suc i" s1 False "t @ [mismatch_message i]"]
    obtain s' where "verify_loop H as (Suc i) s1 False (t @ [mismatch_message i]) =
       (s', False \<and> mismatches H as (asset_bufs as s1) = [],
        (t @ [mismatch_message i]) @
          map (\<lambda>j. mismatch_message (Suc i + j)) (mismatches H as (asset_bufs as s1)))"
      by blast
    with True rd show ?thesis
      by (simp add: mismatches_Cons mismatch_message_def comp_def)
  next
    case False
    from Cons.IH [of "Suc i" s1 clean t]
    obtain s' where "verify_loop H as (Suc i) s1 clean t =
       (s', clean \<and> mismatches H as (asset_bufs as s1) = [],
        t @ map (\<lambda>j. mismatch_message (Suc i + j)) (mismatches H as (asset_bufs as s1)))"
      by blast
    with False rd show ?thesis
      by (simp add: mismatches_Cons mismatch_message_def comp_def)
  qed
qed

lemma do_verify_events:
  assumes "getAssets (lay e) r = (assets, r1)"
  shows "\<exists>r2. do_verify e r t =
     (None, r2,
      t @ [Cout (''Verifying asset integrity...'' @ nl)]
        @ map mismatch_message (mismatches (XXH3_64bits e) assets (asset_bufs assets (stream r1)))
        @ (if mismatches (XXH3_64bits e) assets (asset_bufs assets (stream r1)) = []
           then [Cout (''Integrity Check Passed.'' @ nl)] else []))"
proof -
  let ?t1 = "t @ [Cout (''Verifying asset integrity...'' @ nl)]"
  let ?m = "mismatches (XXH3_64bits e) assets (asset_bufs assets (stream r1))"
  from verify_loop_events [of "XXH3_64bits e" assets 0 "stream r1" True ?t1]
  obtain s' where "verify_loop (XXH3_64bits e) assets 0 (stream r1) True ?t1 =
     (s', ?m = [], ?t1 @ map mismatch_message ?m)"
    by auto
  with assms show ?thesis
    by (simp add: do_verify_def)
qed

lemma read_asset_in_file:
  assumes "\<not> failbit s" and "in_file (contents s) a"
  shows "read_asset a s =
     (asset_bytes (contents s) a,
      s\<lparr>gpos := unat (offset a) + unat (length_bytes a), failbit := False\<rparr>)"
proof -
  let ?n = "unat (length_bytes a)" and ?o = "unat (offset a)"
  from assms(2) have le: "?o + ?n \<le> length (contents s)" and pos: "\<not> sint (offset a) < 0"
    by (simp_all add: in_file_def)
  then have m: "min (length (contents s) - ?o) ?n = ?n"
    by simp
  from assms(1) pos show ?thesis
    by (simp add: read_asset_def seekg_def read_bytes_def Let_def m zeros_def asset_bytes_def)
qed

lemma asset_bufs_in_file:
  "\<not> failbit s \<Longrightarrow> \<forall>a\<in>set as. in_file (contents s) a \<Longrightarrow>
   asset_bufs as s = map (asset_bytes (contents s)) as"
proof (induction as arbitrary: s)
  case Nil
  show ?case by simp
next
  case (Cons a as)
  let ?s1 = "s\<lparr>gpos := unat (offset a) + unat (length_bytes a), failbit := False\<rparr>"
  from Cons.prems have rd: "read_asset a s = (asset_bytes (contents s) a, ?s1)"
    by (simp add: read_asset_in_file)
  from Cons.prems have "asset_bufs as ?s1 = map (asset_bytes (contents ?s1)) as"
    by (intro Cons.IH) simp_all
  with rd show ?case by simp
qed




lemma do_verify_continues: "fst (do_verify e r t) = None"
  by (simp add: do_verify_def Let_def split: prod.splits)

lemma main_verify_only:
  assumes "modeVerify opts" "\<not> modeInfo opts" "\<not> modeExtract opts" "inputs opts \<noteq> []"
    and "BBFReader_open (lay e) (files e) (reader_mem e) (hd (inputs opts)) = Some r"
  shows "main e opts = (Exit 0, snd (snd (do_verify e r [])))"
proof -
  obtain r2 t2 where "do_verify e r [] = (None, r2, t2)"
    using do_verify_continues [of e r "[]"] by (cases "do_verify e r []") auto
  with assms show ?thesis
    by (simp add: main_def main_read_def)
qed

text \<open>
  C1 (as amended). A run with \<^verbatim>\<open>--verify\<close> alone that opens its file ends with exit
  code 0, whatever the hashes: the verify block never sets the exit code.
\<close>

theorem verify_exit_code_zero:
  "modeVerify opts \<Longrightarrow> \<not> modeInfo opts \<Longrightarrow> \<not> modeExtract opts \<Longrightarrow> inputs opts \<noteq> [] \<Longrightarrow>
   BBFReader_open (lay e) (files e) (reader_mem e) (hd (inputs opts)) \<noteq> None \<Longrightarrow>
   fst (main e opts) = Exit 0"
  using main_verify_only by fastforce

lemma demo_env_simps [simp]:
  "XXH3_64bits (demo_env H bytes) = H" "lay (demo_env H bytes) = packed_layout"
  "files (demo_env H bytes) = [''book.bbf'' \<mapsto> bytes]"
  "reader_mem (demo_env H bytes) = (zeros 5, zeros 60)"
  by (simp_all add: demo_env_def)

lemma read_opts_simps [simp]:
  "inputs (read_opts a b c target) = [''book.bbf'']" "modeInfo (read_opts a b c target) = a"
  "modeVerify (read_opts a b c target) = b" "modeExtract (read_opts a b c target) = c"
  "outDir (read_opts a b c target) = ''out''" "targetSection (read_opts a b c target) = target"
  by (simp_all add: read_opts_def)

lemma asset_bufs_two_hashes:
  "asset_bufs [\<lparr>offset = 0, length_bytes = 0, xxh3Hash = 0, type = 2\<rparr>,
               \<lparr>offset = 0, length_bytes = 0, xxh3Hash = 1, type = 2\<rparr>]
     (stream (two_hashes_reader p)) = [[], []]"
  by (simp add: two_hashes_reader_def read_asset_def seekg_def read_bytes_def zeros_def)

text \<open>
  C1 as stated fails. In \<open>two_hashes\<close> the two assets cover the same bytes and store
  different hashes, so whatever the hash function is, one of them is reported as a
  mismatch; the exit code is 0.
\<close>

theorem verify_exit_code_counterexample:
  "\<forall>H. fst (main (demo_env H two_hashes) (read_opts False True False [])) = Exit 0 \<and>
       (mismatch_message 0 \<in> set (snd (main (demo_env H two_hashes) (read_opts False True False [])))
        \<or> mismatch_message 1
             \<in> set (snd (main (demo_env H two_hashes) (read_opts False True False []))))"
proof
  fix H
  let ?e = "demo_env H two_hashes" and ?opts = "read_opts False True False []"
  let ?assets = "[\<lparr>offset = 0, length_bytes = 0, xxh3Hash = 0, type = 2\<rparr>,
                  \<lparr>offset = 0, length_bytes = 0, xxh3Hash = (1::u64), type = (2::u8)\<rparr>]"
  have m: "main ?e ?opts = (Exit 0, snd (snd (do_verify ?e (two_hashes_reader 5) [])))"
    by (rule main_verify_only) (simp_all add: open_two_hashes)
  have a: "getAssets (lay ?e) (two_hashes_reader 5) = (?assets, two_hashes_reader 55)"
    by (simp add: getAssets_two_hashes)
  have mm: "mismatches H ?assets [[], []] = (if H [] \<noteq> 0 then [0] else []) @ (if H [] \<noteq> 1 then [1] else [])"
    by (simp add: mismatches_def upt_small)
  define ev where "ev = snd (snd (do_verify ?e (two_hashes_reader 5) []))"
  have "ev = [Cout (''Verifying asset integrity...'' @ nl)]
           @ map mismatch_message (mismatches H ?assets [[], []])
           @ (if mismatches H ?assets [[], []] = []
              then [Cout (''Integrity Check Passed.'' @ nl)] else [])"
    using do_verify_events [OF a, of "[]", unfolded asset_bufs_two_hashes]
    by (auto simp: ev_def)
  with m mm show "fst (main ?e ?opts) = Exit 0 \<and>
       (mismatch_message 0 \<in> set (snd (main ?e ?opts)) \<or>
        mismatch_message 1 \<in> set (snd (main ?e ?opts)))"
    unfolding ev_def
    by (cases "H [] = 0") simp_all
qed

theorem verify_exit_code_zero_witness:
  "modeVerify (read_opts False True False []) \<and> \<not> modeInfo (read_opts False True False []) \<and>
   \<not> modeExtract (read_opts False True False []) \<and> inputs (read_opts False True False []) \<noteq> [] \<and>
   BBFReader_open (lay (demo_env length_hash book)) (files (demo_env length_hash book))
     (reader_mem (demo_env length_hash book)) (hd (inputs (read_opts False True False []))) \<noteq> None \<and>
   fst (main (demo_env length_hash book) (read_opts False True False [])) = Exit 0"
proof -
  have o: "BBFReader_open (lay (demo_env length_hash book)) (files (demo_env length_hash book))
     (reader_mem (demo_env length_hash book)) (hd (inputs (read_opts False True False []))) \<noteq> None"
    by (simp add: open_book)
  from verify_exit_code_zero [OF _ _ _ _ o] show ?thesis
    using o by simp
qed



lemma book_in_file: "in_file book (book_assets ! 0)" "in_file book (book_assets ! 1)"
  by (simp_all add: in_file_def book_assets_def book_bytes)

lemma book_asset_bytes: "map (asset_bytes book) book_assets = [''abc'', ''de'']"
  by (simp add: asset_bytes_def book_assets_def book_bytes)


subsection \<open>What open validates (C4)\<close>

lemma unat_small: "n < 2 ^ 63 \<Longrightarrow> unat (of_nat n :: u64) = n"
  by (simp add: unat_of_nat)

lemma sint_small: "n < 2 ^ 63 \<Longrightarrow> sint (of_nat n :: u64) = int n"
proof -
  assume "n < 2 ^ 63"
  then have "int n < 2 ^ 63"
    by (metis of_nat_less_iff of_nat_numeral of_nat_power)
  then have "signed_take_bit 63 (int n) = int n"
    by (simp add: signed_take_bit_int_eq_self)
  then show ?thesis
    by (simp add: signed_of_nat)
qed

lemma footer_position:
  "m \<le> n \<Longrightarrow> n < 2 ^ 63 \<Longrightarrow>
   unat (of_nat n - of_nat m :: u64) = n - m \<and> \<not> sint (of_nat n - of_nat m :: u64) < 0"
proof -
  assume a: "m \<le> n" "n < 2 ^ 63"
  then have "(of_nat n - of_nat m :: u64) = of_nat (n - m)"
    by simp
  moreover from a have "n - m < 2 ^ 63"
    by simp
  ultimately show ?thesis
    by (simp add: unat_small sint_small)
qed

lemma open_missing: "fs path = None \<Longrightarrow> BBFReader_open l fs mem path = None"
  by (simp add: BBFReader_open_def)

lemma open_magic:
  assumes present: "fs path = Some bytes"
    and hs: "sizeof_BBFHeader l \<le> length bytes" and fsz: "sizeof_BBFFooter l \<le> length bytes"
    and size: "length bytes < 2 ^ 63"
    and mem: "length (fst mem) = sizeof_BBFHeader l" "length (snd mem) = sizeof_BBFFooter l"
  shows "(BBFReader_open l fs mem path \<noteq> None) =
     (magic (as_BBFHeader l (take (sizeof_BBFHeader l) bytes)) = ''BBF1'' \<and>
      footer_magic (as_BBFFooter l (drop (length bytes - sizeof_BBFFooter l) bytes)) = ''BBF1'')"
proof -
  let ?s0 = "\<lparr>contents = bytes, gpos = length bytes, failbit = False\<rparr>"
  have hread: "read_bytes (sizeof_BBFHeader l) (fst mem) (seekg 0 ?s0) =
      (take (sizeof_BBFHeader l) bytes,
       \<lparr>contents = bytes, gpos = sizeof_BBFHeader l, failbit = False\<rparr>)"
    using hs mem(1) by (simp add: seekg_def read_bytes_def Let_def min_def)
  let ?s2 = "\<lparr>contents = bytes, gpos = sizeof_BBFHeader l, failbit = False\<rparr>"
  from footer_position [OF fsz size]
  have seek: "seekg (of_nat (length bytes) - of_nat (sizeof_BBFFooter l)) ?s2 =
      \<lparr>contents = bytes, gpos = length bytes - sizeof_BBFFooter l, failbit = False\<rparr>"
    by (simp add: seekg_def)
  have fread: "read_bytes (sizeof_BBFFooter l) (snd mem)
        \<lparr>contents = bytes, gpos = length bytes - sizeof_BBFFooter l, failbit = False\<rparr> =
      (drop (length bytes - sizeof_BBFFooter l) bytes,
       \<lparr>contents = bytes, gpos = length bytes, failbit = False\<rparr>)"
    using fsz mem(2) by (simp add: read_bytes_def Let_def)
  show ?thesis
    by (simp add: BBFReader_open_def present hread seek fread Let_def split: prod.splits)
qed

lemma main_open_failed:
  assumes "modeInfo opts \<or> modeVerify opts \<or> modeExtract opts" and "inputs opts \<noteq> []"
    and "BBFReader_open (lay e) (files e) (reader_mem e) (hd (inputs opts)) = None"
  shows "main e opts = (Exit 1, [Cerr (''Error: Failed to open BBF.'' @ nl)])"
  using assms by (simp add: main_def main_read_def)

text \<open>
  C4 (as amended). \<open>open\<close> fails when the file cannot be opened. For a file that holds a
  whole header and a whole footer, \<open>open\<close> succeeds exactly when the header's magic and
  the footer's magic are both \<^verbatim>\<open>BBF1\<close>: the version byte is not looked at. When \<open>open\<close>
  fails, \<^verbatim>\<open>main\<close> prints \<^verbatim>\<open>Error: Failed to open BBF.\<close> and returns 1. (\<open>mem\<close> has the
  sizes of the two members it stands for. Files too short for a header or a footer are
  left out: the reads are not checked, and the comparison then reads bytes of \<open>mem\<close>.)
\<close>

theorem open_checks_magic_only:
  "(fs path = None \<longrightarrow> BBFReader_open l fs mem path = None) \<and>
   (fs path = Some bytes \<and> sizeof_BBFHeader l \<le> length bytes \<and>
    sizeof_BBFFooter l \<le> length bytes \<and> length bytes < 2 ^ 63 \<and>
    length (fst mem) = sizeof_BBFHeader l \<and> length (snd mem) = sizeof_BBFFooter l \<longrightarrow>
      (BBFReader_open l fs mem path \<noteq> None) =
        (magic (as_BBFHeader l (take (sizeof_BBFHeader l) bytes)) = ''BBF1'' \<and>
         footer_magic (as_BBFFooter l (drop (length bytes - sizeof_BBFFooter l) bytes))
           = ''BBF1'')) \<and>
   ((modeInfo opts \<or> modeVerify opts \<or> modeExtract opts) \<and> inputs opts \<noteq> [] \<and>
    BBFReader_open (lay e) (files e) (reader_mem e) (hd (inputs opts)) = None \<longrightarrow>
      main e opts = (Exit 1, [Cerr (''Error: Failed to open BBF.'' @ nl)]))"
proof (intro conjI impI)
  assume "fs path = None"
  then show "BBFReader_open l fs mem path = None"
    by (rule open_missing)
next
  assume "fs path = Some bytes \<and> sizeof_BBFHeader l \<le> length bytes \<and>
    sizeof_BBFFooter l \<le> length bytes \<and> length bytes < 2 ^ 63 \<and>
    length (fst mem) = sizeof_BBFHeader l \<and> length (snd mem) = sizeof_BBFFooter l"
  then show "(BBFReader_open l fs mem path \<noteq> None) =
        (magic (as_BBFHeader l (take (sizeof_BBFHeader l) bytes)) = ''BBF1'' \<and>
         footer_magic (as_BBFFooter l (drop (length bytes - sizeof_BBFFooter l) bytes))
           = ''BBF1'')"
    by (intro open_magic) simp_all
next
  assume "(modeInfo opts \<or> modeVerify opts \<or> modeExtract opts) \<and> inputs opts \<noteq> [] \<and>
    BBFReader_open (lay e) (files e) (reader_mem e) (hd (inputs opts)) = None"
  then show "main e opts = (Exit 1, [Cerr (''Error: Failed to open BBF.'' @ nl)])"
    by (intro main_open_failed) simp_all
qed

text \<open>
  C4 as stated fails: the file \<open>version_99\<close> has both magic values and the version
  byte 99, and \<open>open\<close> accepts it.
\<close>

theorem open_accepts_version_99_counterexample:
  "version (as_BBFHeader packed_layout (take 5 version_99)) = 99 \<and>
   map_option (\<lambda>r. version (header r))
     (BBFReader_open packed_layout [''book.bbf'' \<mapsto> version_99] (zeros 5, zeros 60)
        ''book.bbf'') = Some 99"
proof
  show "version (as_BBFHeader packed_layout (take 5 version_99)) = 99"
    by (simp add: version_99_bytes packed_layout_def field_def le_word_def)
  show "map_option (\<lambda>r. version (header r))
     (BBFReader_open packed_layout [''book.bbf'' \<mapsto> version_99] (zeros 5, zeros 60)
        ''book.bbf'') = Some 99"
    by (rule open_version_99)
qed

theorem open_checks_magic_only_witness:
  "[''book.bbf'' \<mapsto> version_99] ''book.bbf'' = Some version_99 \<and>
   sizeof_BBFHeader packed_layout \<le> length version_99 \<and>
   sizeof_BBFFooter packed_layout \<le> length version_99 \<and> length version_99 < 2 ^ 63 \<and>
   length (fst (zeros 5, zeros 60)) = sizeof_BBFHeader packed_layout \<and>
   length (snd (zeros 5, zeros 60)) = sizeof_BBFFooter packed_layout \<and>
   magic (as_BBFHeader packed_layout (take (sizeof_BBFHeader packed_layout) version_99))
     = ''BBF1'' \<and>
   footer_magic (as_BBFFooter packed_layout
     (drop (length version_99 - sizeof_BBFFooter packed_layout) version_99)) = ''BBF1'' \<and>
   BBFReader_open packed_layout [''book.bbf'' \<mapsto> version_99] (zeros 5, zeros 60) ''book.bbf''
     \<noteq> None"
proof -
  have h: "[''book.bbf'' \<mapsto> version_99] ''book.bbf'' = Some version_99"
    "sizeof_BBFHeader packed_layout \<le> length version_99"
    "sizeof_BBFFooter packed_layout \<le> length version_99" "length version_99 < 2 ^ 63"
    "length (fst (zeros 5, zeros 60)) = sizeof_BBFHeader packed_layout"
    "length (snd (zeros 5, zeros 60)) = sizeof_BBFFooter packed_layout"
    by (simp_all add: version_99_bytes packed_layout_def zeros_def)
  have m: "magic (as_BBFHeader packed_layout (take (sizeof_BBFHeader packed_layout) version_99))
     = ''BBF1''"
    "footer_magic (as_BBFFooter packed_layout
       (drop (length version_99 - sizeof_BBFFooter packed_layout) version_99)) = ''BBF1''"
    by (simp_all add: version_99_bytes packed_layout_def field_def)
  from open_checks_magic_only
    [where fs = "[''book.bbf'' \<mapsto> version_99]" and path = "''book.bbf''"
       and bytes = version_99 and l = packed_layout and mem = "(zeros 5, zeros 60)",
     THEN conjunct2, THEN conjunct1] h m
  have "BBFReader_open packed_layout [''book.bbf'' \<mapsto> version_99] (zeros 5, zeros 60)
      ''book.bbf'' \<noteq> None"
    by blast
  with h m show ?thesis
    by blast
qed

subsection \<open>Extraction (C6, C8, C10)\<close>

lemma info_sections_console:
  "list_all console t \<Longrightarrow> list_all console (snd (info_sections r ss t))"
  by (induction ss arbitrary: t) (auto split: sum.splits)

lemma info_metadata_console:
  "list_all console t \<Longrightarrow> list_all console (snd (info_metadata r ms t))"
  by (induction ms arbitrary: t) (auto split: sum.splits)

lemma do_info_console:
  "list_all console t \<Longrightarrow> list_all console (snd (snd (do_info e r t)))"
proof -
  assume t: "list_all console t"
  obtain sections r1 where s: "getSections (lay e) r = (sections, r1)"
    by (cases "getSections (lay e) r")
  obtain metadata r2 where m: "getMetadata (lay e) r1 = (metadata, r2)"
    by (cases "getMetadata (lay e) r1")
  let ?t1 = "t @ [Cout (''Bound Book Format (.bbf) Info'' @ nl),
                    Cout (''------------------------------'' @ nl),
                    Cout (''BBF Version: '' @ to_string (unat (version (header r))) @ nl),
                    Cout (''Pages:       '' @ to_string (unat (pageCount (footer r))) @ nl),
                    Cout (''Assets:      '' @ to_string (unat (assetCount (footer r)))
                          @ '' (Deduplicated)'' @ nl),
                    Cout (nl @ ''[Sections]'' @ nl)]"
  from t have t1: "list_all console ?t1"
    by simp
  obtain f1 t2 where p1: "(if sections = [] then (None, ?t1 @ [Cout ('' No sections defined.'' @ nl)])
                      else info_sections r1 sections ?t1) = (f1, t2)"
    by (cases "(if sections = [] then (None, ?t1 @ [Cout ('' No sections defined.'' @ nl)])
                      else info_sections r1 sections ?t1)")
  have t2: "list_all console t2"
  proof (cases "sections = []")
    case True
    with p1 t1 show ?thesis by auto
  next
    case False
    with p1 info_sections_console [OF t1, of r1 sections] show ?thesis by simp
  qed
  let ?t3 = "t2 @ [Cout (nl @ ''[Metadata]'' @ nl)]"
  from t2 have t3: "list_all console ?t3"
    by simp
  obtain f2 t4 where p2: "(if metadata = [] then (None, ?t3 @ [Cout ('' No metadata found.'' @ nl)])
                             else info_metadata r2 metadata ?t3) = (f2, t4)"
    by (cases "(if metadata = [] then (None, ?t3 @ [Cout ('' No metadata found.'' @ nl)])
                             else info_metadata r2 metadata ?t3)")
  have t4: "list_all console t4"
  proof (cases "metadata = []")
    case True
    with p2 t3 show ?thesis by auto
  next
    case False
    with p2 info_metadata_console [OF t3, of r2 metadata] show ?thesis by simp
  qed
  have "do_info e r t =
      (case f1 of
         Some f \<Rightarrow> (Some (Fault f), r1, t2)
       | None \<Rightarrow>
           (case f2 of
              Some f \<Rightarrow> (Some (Fault f), r2, t4)
            | None \<Rightarrow> (None, r2, t4 @ [Cout nl])))"
    unfolding do_info_def Let_def s prod.case p1 m p2 ..
  with t2 t4 show ?thesis
    by (cases f1; cases f2; simp)
qed

lemma verify_loop_console:
  "list_all console t \<Longrightarrow> list_all console (snd (snd (verify_loop H as i s clean t)))"
  by (induction as arbitrary: i s clean t) (auto split: prod.splits)

lemma do_verify_console:
  "list_all console t \<Longrightarrow> list_all console (snd (snd (do_verify e r t)))"
proof -
  assume t: "list_all console t"
  obtain assets r1 where a: "getAssets (lay e) r = (assets, r1)"
    by (cases "getAssets (lay e) r")
  let ?t1 = "t @ [Cout (''Verifying asset integrity...'' @ nl)]"
  obtain s clean t2 where v: "verify_loop (XXH3_64bits e) assets 0 (stream r1) True ?t1 = (s, clean, t2)"
    by (cases "verify_loop (XXH3_64bits e) assets 0 (stream r1) True ?t1") auto
  from t have "list_all console ?t1" by simp
  from verify_loop_console [OF this, of "XXH3_64bits e" assets 0 "stream r1" True] v
  have "list_all console t2" by simp
  with a v show ?thesis
    by (simp add: do_verify_def)
qed

lemma before_extract_console:
  assumes "before_extract e opts = Some (st, r, t)"
  shows "list_all console t"
proof -
  from assms obtain r0 where
    r0: "BBFReader_open (lay e) (files e) (reader_mem e) (hd (inputs opts)) = Some r0"
    and p: "(case (if modeInfo opts then do_info e r0 [] else (None, r0, [])) of
                    (Some st, r1, t1) \<Rightarrow> (Some st, r1, t1)
                  | (None, r1, t1) \<Rightarrow>
                      (if modeVerify opts then do_verify e r1 t1 else (None, r1, t1)))
            = (st, r, t)"
    by (auto simp: before_extract_def split: if_splits option.splits)
  obtain st1 r1 t1 where i: "(if modeInfo opts then do_info e r0 [] else (None, r0, [])) = (st1, r1, t1)"
    by (cases "(if modeInfo opts then do_info e r0 [] else (None, r0, []))") auto
  have t1: "list_all console t1"
  proof (cases "modeInfo opts")
    case True
    with i do_info_console [of "[]" e r0] show ?thesis by simp
  next
    case False
    with i show ?thesis by simp
  qed
  show ?thesis
  proof (cases st1)
    case (Some x)
    with p i t1 show ?thesis by simp
  next
    case None
    show ?thesis
    proof (cases "modeVerify opts")
      case True
      with p i None do_verify_console [OF t1, of e r1] show ?thesis by simp
    next
      case False
      with p i None t1 show ?thesis by simp
    qed
  qed
qed

lemma console_written: "list_all console t \<Longrightarrow> written t = []"
  by (induction t) (auto simp: written_def split: event.splits)

lemma main_extract:
  assumes "modeExtract opts" and "before_extract e opts = Some (None, r, t)"
  shows "main e opts =
     (case do_extract e opts r t of
        (Some st, r', t') \<Rightarrow> (st, t')
      | (None, r', t') \<Rightarrow> (Exit 0, t'))"
proof -
  from assms(2) obtain r0 where
    ne: "inputs opts \<noteq> []"
    and r0: "BBFReader_open (lay e) (files e) (reader_mem e) (hd (inputs opts)) = Some r0"
    and p: "(case (if modeInfo opts then do_info e r0 [] else (None, r0, [])) of
                    (Some st, r1, t1) \<Rightarrow> (Some st, r1, t1)
                  | (None, r1, t1) \<Rightarrow>
                      (if modeVerify opts then do_verify e r1 t1 else (None, r1, t1)))
            = (None, r, t)"
    by (auto simp: before_extract_def split: if_splits option.splits)
  obtain st1 r1 t1 where i: "(if modeInfo opts then do_info e r0 [] else (None, r0, [])) = (st1, r1, t1)"
    by (cases "(if modeInfo opts then do_info e r0 [] else (None, r0, []))") auto
  with p have st1: "st1 = None"
    and v: "(if modeVerify opts then do_verify e r1 t1 else (None, r1, t1)) = (None, r, t)"
    by (cases st1; simp)+
  from assms(1) ne r0 i st1 v show ?thesis
    by (simp add: main_def main_read_def)
qed


lemma find_section_none:
  "\<forall>s\<in>set sections. title_differs r s target \<Longrightarrow>
   find_section r n sections target = Inr None"
  by (induction sections) (auto simp: title_differs_def split: sum.splits)

lemma find_end_range:
  "find_end start par e0 rest = e0 \<or>
   find_end start par e0 rest \<in> sectionStartIndex ` set rest"
  by (induction rest) auto

lemma do_extract_unfold:
  assumes "extract_tables e r = (pages, assets, sections, r3)"
  shows "do_extract e opts r t =
     (case resolve_range r3 pages sections (targetSection opts) of
        Inl f \<Rightarrow> (Some (Fault f), r3, t @ [CreateDirectories (outDir opts)])
      | Inr None \<Rightarrow>
          (Some (Exit 1), r3,
           t @ [CreateDirectories (outDir opts), not_found_message (targetSection opts)])
      | Inr (Some (start, e')) \<Rightarrow>
          (case extract_pages (outDir opts) pages assets start e' (stream r3)
                  (t @ [CreateDirectories (outDir opts),
                        Cout (''Extracting '' @ targetSection opts @ '' (Pages ''
                              @ to_string (unat (start + 1)) @ '' to ''
                              @ to_string (unat e') @ '') to '' @ outDir opts
                              @ ''...'' @ nl)]) of
             (Some f, s, t3) \<Rightarrow> (Some (Fault f), r3\<lparr>stream := s\<rparr>, t3)
           | (None, s, t3) \<Rightarrow>
               (None, r3\<lparr>stream := s\<rparr>,
                t3 @ [Cout (''Extracted '' @ to_string (unat (e' - start))
                            @ '' pages.'' @ nl)])))"
  using assms
  by (auto simp: do_extract_def extract_tables_def not_found_message_def Let_def
      split: prod.splits sum.splits option.splits)

lemma do_extract_not_found:
  assumes "extract_tables e r = (pages, assets, sections, r3)"
    and "targetSection opts \<noteq> []"
    and "\<forall>s\<in>set sections. title_differs r3 s (targetSection opts)"
  shows "do_extract e opts r t =
     (Some (Exit 1), r3,
      t @ [CreateDirectories (outDir opts), not_found_message (targetSection opts)])"
  using assms(2,3)
  by (simp add: do_extract_unfold [OF assms(1)] resolve_range_def find_section_none)

lemma extract_pages_events:
  assumes "unat e' \<le> length pages"
    and "\<forall>n. unat start \<le> n \<and> n < unat e' \<longrightarrow> unat (assetIndex (pages ! n)) < length assets"
  shows "\<exists>s'. extract_pages dir pages assets start e' s t =
     (None, s',
      t @ map2 (\<lambda>n buf.
                 WriteFile (path_join dir (''page_'' @ to_string (n + 1)
                              @ (if type (page_asset pages assets n) = 0x01
                                 then ''.avif'' else ''.png''))) buf)
            [unat start..<unat e']
            (asset_bufs (map (page_asset pages assets) [unat start..<unat e']) s))"
  using assms
proof (induction "unat e' - unat start" arbitrary: start s t)
  case 0
  then have "\<not> start < e'"
    by (simp add: word_less_nat_alt)
  moreover from 0 have "[unat start..<unat e'] = []"
    by simp
  ultimately show ?case
    by (simp add: extract_pages.simps)
next
  case (Suc d)
  then have lt: "start < e'" and less: "unat start < unat e'"
    by (simp_all add: word_less_nat_alt)
  have "unat e' < 2 ^ 32"
    using unsigned_less [of e'] by simp
  with less have "unat start + 1 < 2 ^ 32"
    by simp
  then have next_page: "unat (start + 1) = Suc (unat start)"
    by (simp add: unat_word_ariths)
  let ?a = "page_asset pages assets (unat start)"
  obtain buf s1 where rd: "read_asset ?a s = (buf, s1)"
    by (cases "read_asset ?a s")
  let ?w = "WriteFile (path_join dir (''page_'' @ to_string (unat start + 1)
                         @ (if type ?a = 0x01 then ''.avif'' else ''.png''))) buf"
  from less Suc.prems have "unat start < length pages"
    and "unat (assetIndex (pages ! unat start)) < length assets"
    by simp_all
  with rd next_page have page: "extract_page dir pages assets start s t = Inr (s1, t @ [?w])"
    by (simp add: extract_page_def page_asset_def Let_def)
  have "\<exists>s'. extract_pages dir pages assets (start + 1) e' s1 (t @ [?w]) =
     (None, s',
      (t @ [?w]) @ map2 (\<lambda>n buf.
                 WriteFile (path_join dir (''page_'' @ to_string (n + 1)
                              @ (if type (page_asset pages assets n) = 0x01
                                 then ''.avif'' else ''.png''))) buf)
            [unat (start + 1)..<unat e']
            (asset_bufs (map (page_asset pages assets) [unat (start + 1)..<unat e']) s1))"
  proof (rule Suc.hyps(1))
    from Suc.hyps(2) next_page show "d = unat e' - unat (start + 1)"
      by simp
    from Suc.prems(1) show "unat e' \<le> length pages" .
    from Suc.prems(2) next_page
    show "\<forall>n. unat (start + 1) \<le> n \<and> n < unat e' \<longrightarrow>
        unat (assetIndex (pages ! n)) < length assets"
      by simp
  qed
  then obtain s' where rest: "extract_pages dir pages assets (start + 1) e' s1 (t @ [?w]) =
     (None, s',
      (t @ [?w]) @ map2 (\<lambda>n buf.
                 WriteFile (path_join dir (''page_'' @ to_string (n + 1)
                              @ (if type (page_asset pages assets n) = 0x01
                                 then ''.avif'' else ''.png''))) buf)
            [Suc (unat start)..<unat e']
            (asset_bufs (map (page_asset pages assets) [Suc (unat start)..<unat e']) s1))"
    by (auto simp: next_page)
  from less have upt: "[unat start..<unat e'] = unat start # [Suc (unat start)..<unat e']"
    by (simp add: upt_conv_Cons)
  from lt page rest have "extract_pages dir pages assets start e' s t =
     (None, s',
      (t @ [?w]) @ map2 (\<lambda>n buf.
                 WriteFile (path_join dir (''page_'' @ to_string (n + 1)
                              @ (if type (page_asset pages assets n) = 0x01
                                 then ''.avif'' else ''.png''))) buf)
            [Suc (unat start)..<unat e']
            (asset_bufs (map (page_asset pages assets) [Suc (unat start)..<unat e']) s1))"
    by (subst extract_pages.simps) simp
  then show ?case
    by (simp add: upt rd)
qed

lemma resolve_range_matched:
  assumes "target \<noteq> []" and "i < length sections" and "title_is r (sections ! i) target"
    and "\<forall>m<i. title_differs r (sections ! m) target"
  shows "\<exists>e'. resolve_range r pages sections target
           = Inr (Some (sectionStartIndex (sections ! i), e')) \<and>
         (e' = of_nat (length pages) \<or> e' \<in> sectionStartIndex ` set sections)"
proof -
  let ?e = "find_end (sectionStartIndex (sections ! i)) (parentSectionIndex (sections ! i))
              (of_nat (length pages)) (drop (Suc i) sections)"
  from assms have "resolve_range r pages sections target
      = Inr (Some (sectionStartIndex (sections ! i), ?e))"
    by (simp add: resolve_range_def find_section_at)
  moreover have "?e = of_nat (length pages) \<or> ?e \<in> sectionStartIndex ` set sections"
    using find_end_range [of "sectionStartIndex (sections ! i)"
        "parentSectionIndex (sections ! i)" "of_nat (length pages)" "drop (Suc i) sections"]
    by (auto dest: in_set_dropD)
  ultimately show ?thesis
    by blast
qed

lemma do_extract_matched:
  assumes tables: "extract_tables e r = (pages, assets, sections, r3)"
    and "targetSection opts \<noteq> []" and "i < length sections"
    and "title_is r3 (sections ! i) (targetSection opts)"
    and "\<forall>m<i. title_differs r3 (sections ! m) (targetSection opts)"
  shows "fst (do_extract e opts r t) \<noteq> Some (Exit 1)"
proof -
  from resolve_range_matched [OF assms(2-5), of pages] obtain e' where
    "resolve_range r3 pages sections (targetSection opts)
       = Inr (Some (sectionStartIndex (sections ! i), e'))"
    by blast
  then show ?thesis
    by (simp add: do_extract_unfold [OF tables] split: prod.splits option.splits)
qed

lemma do_extract_matched_wf:
  assumes tables: "extract_tables e r = (pages, assets, sections, r3)"
    and "targetSection opts \<noteq> []" and "i < length sections"
    and "title_is r3 (sections ! i) (targetSection opts)"
    and "\<forall>m<i. title_differs r3 (sections ! m) (targetSection opts)"
    and starts: "\<forall>s\<in>set sections. unat (sectionStartIndex s) \<le> length pages"
    and indices: "\<forall>p\<in>set pages. unat (assetIndex p) < length assets"
  shows "fst (do_extract e opts r t) = None"
proof -
  from resolve_range_matched [OF assms(2-5), of pages] obtain e' where
    range: "resolve_range r3 pages sections (targetSection opts)
       = Inr (Some (sectionStartIndex (sections ! i), e'))"
    and e': "e' = of_nat (length pages) \<or> e' \<in> sectionStartIndex ` set sections"
    by blast
  from e' starts have le: "unat e' \<le> length pages"
    using unat_of_nat_le [of "length pages"] by auto
  have ok: "\<forall>n. unat (sectionStartIndex (sections ! i)) \<le> n \<and> n < unat e' \<longrightarrow>
      unat (assetIndex (pages ! n)) < length assets"
    using le indices by simp
  let ?t2 = "t @ [CreateDirectories (outDir opts),
                  Cout (''Extracting '' @ targetSection opts @ '' (Pages ''
                        @ to_string (unat (sectionStartIndex (sections ! i) + 1)) @ '' to ''
                        @ to_string (unat e') @ '') to '' @ outDir opts @ ''...'' @ nl)]"
  from extract_pages_events [OF le ok, of "outDir opts" "stream r3" ?t2]
  obtain s' t3 where "extract_pages (outDir opts) pages assets
      (sectionStartIndex (sections ! i)) e' (stream r3) ?t2 = (None, s', t3)"
    by blast
  with range show ?thesis
    by (simp add: do_extract_unfold [OF tables])
qed


text \<open>
  C6. Let a run reach the extract block with a target section name that is not empty.
  If no section's title matches (\<^verbatim>\<open>trimQuotes(getString(title)) == targetSection\<close> fails
  for every section), \<^verbatim>\<open>main\<close> prints the not-found line and returns 1, and the whole
  run writes no file. If the title of some section \<open>i\<close> matches and no earlier one does,
  \<^verbatim>\<open>main\<close> does not return 1; and where every section starts within the page table and
  every page refers to an asset of the asset table, it returns 0.
\<close>

theorem extract_section_not_found:
  "modeExtract opts \<Longrightarrow> before_extract e opts = Some (None, r, t) \<Longrightarrow>
   extract_tables e r = (pages, assets, sections, r3) \<Longrightarrow> targetSection opts \<noteq> [] \<Longrightarrow>
     ((\<forall>s\<in>set sections. title_differs r3 s (targetSection opts)) \<longrightarrow>
        fst (main e opts) = Exit 1 \<and>
        not_found_message (targetSection opts) \<in> set (snd (main e opts)) \<and>
        written (snd (main e opts)) = []) \<and>
     (i < length sections \<and> title_is r3 (sections ! i) (targetSection opts) \<and>
      (\<forall>m<i. title_differs r3 (sections ! m) (targetSection opts)) \<longrightarrow>
        fst (main e opts) \<noteq> Exit 1 \<and>
        ((\<forall>s\<in>set sections. unat (sectionStartIndex s) \<le> length pages) \<and>
         (\<forall>p\<in>set pages. unat (assetIndex p) < length assets) \<longrightarrow>
           fst (main e opts) = Exit 0))"
proof -
  assume x: "modeExtract opts" and b: "before_extract e opts = Some (None, r, t)"
    and tables: "extract_tables e r = (pages, assets, sections, r3)"
    and target: "targetSection opts \<noteq> []"
  note m = main_extract [OF x b]
  have quiet: "written t = []"
    using before_extract_console [OF b] by (rule console_written)
  have a: "fst (main e opts) = Exit 1 \<and>
        not_found_message (targetSection opts) \<in> set (snd (main e opts)) \<and>
        written (snd (main e opts)) = []"
    if "\<forall>s\<in>set sections. title_differs r3 s (targetSection opts)"
    using quiet by (simp add: m do_extract_not_found [OF tables target that] written_def
        not_found_message_def)
  have b1: "fst (main e opts) \<noteq> Exit 1"
    if "i < length sections" "title_is r3 (sections ! i) (targetSection opts)"
      "\<forall>m<i. title_differs r3 (sections ! m) (targetSection opts)"
    using do_extract_matched [OF tables target that, of t]
    by (auto simp: m split: prod.splits option.splits)
  have b2: "fst (main e opts) = Exit 0"
    if "i < length sections" "title_is r3 (sections ! i) (targetSection opts)"
      "\<forall>m<i. title_differs r3 (sections ! m) (targetSection opts)"
      "\<forall>s\<in>set sections. unat (sectionStartIndex s) \<le> length pages"
      "\<forall>p\<in>set pages. unat (assetIndex p) < length assets"
    using do_extract_matched_wf [OF tables target that, of t]
    by (auto simp: m split: prod.splits option.splits)
  from a b1 b2 show ?thesis
    by blast
qed

text \<open>
  C8. When the extract block fails because no section's title matches, what the run has
  done is: the console output \<open>t\<close> of the blocks before, then
  \<^verbatim>\<open>fs::create_directories(outDir)\<close>, then the not-found line. The output directory is
  created before the failure, and nothing else touches the file system.
\<close>

theorem extract_not_found_creates_directory:
  "modeExtract opts \<Longrightarrow> before_extract e opts = Some (None, r, t) \<Longrightarrow>
   extract_tables e r = (pages, assets, sections, r3) \<Longrightarrow> targetSection opts \<noteq> [] \<Longrightarrow>
   (\<forall>s\<in>set sections. title_differs r3 s (targetSection opts)) \<Longrightarrow>
     main e opts =
       (Exit 1, t @ [CreateDirectories (outDir opts), not_found_message (targetSection opts)]) \<and>
     list_all console t"
proof -
  assume x: "modeExtract opts" and b: "before_extract e opts = Some (None, r, t)"
    and tables: "extract_tables e r = (pages, assets, sections, r3)"
    and target: "targetSection opts \<noteq> []"
    and none: "\<forall>s\<in>set sections. title_differs r3 s (targetSection opts)"
  show ?thesis
    using before_extract_console [OF b]
    by (simp add: main_extract [OF x b] do_extract_not_found [OF tables target none])
qed

text \<open>
  C10. The page loop of the extract block, from page \<open>start\<close> to page \<open>e'\<close>, where the
  pages of the range exist and refer to assets of the asset table: it ends without a
  fault, and what it adds to the events is one written file per page \<open>n\<close> of the range, in
  order, named \<^verbatim>\<open>page_\<close>, \<open>n + 1\<close>, and \<^verbatim>\<open>.avif\<close> when the type tag of the page's asset is
  \<^verbatim>\<open>0x01\<close> and \<^verbatim>\<open>.png\<close> for every other tag. No tag stops the loop.
\<close>

theorem extract_page_extension:
  "unat e' \<le> length pages \<Longrightarrow>
   (\<forall>n. unat start \<le> n \<and> n < unat e' \<longrightarrow> unat (assetIndex (pages ! n)) < length assets) \<Longrightarrow>
     \<exists>s'. extract_pages dir pages assets start e' s t =
       (None, s',
        t @ map2 (\<lambda>n buf.
                   WriteFile (path_join dir (''page_'' @ to_string (n + 1)
                                @ (if type (page_asset pages assets n) = 0x01
                                   then ''.avif'' else ''.png''))) buf)
              [unat start..<unat e']
              (asset_bufs (map (page_asset pages assets) [unat start..<unat e']) s))"
  by (rule extract_pages_events)

lemma book_titles:
  "getString (book_reader p) 0 = Inr ''A''" "getString (book_reader p) 2 = Inr ''B''"
  "getString (book_reader p) 4 = Inr ''C''"
  by (simp_all add: book_reader_def pool_of_def getString_def)

lemma book_no_Z:
  "title_differs (book_reader p) (book_sections ! 0) ''Z''"
  "title_differs (book_reader p) (book_sections ! 1) ''Z''"
  "title_differs (book_reader p) (book_sections ! 2) ''Z''"
  by (simp_all add: title_differs_def book_sections_def book_titles)

lemma book_B:
  "title_is (book_reader p) (book_sections ! 1) ''B''"
  "title_differs (book_reader p) (book_sections ! 0) ''B''"
  by (simp_all add: title_is_def title_differs_def book_sections_def book_titles)

lemma before_extract_book:
  "before_extract (demo_env H book) (read_opts False False True target)
     = Some (None, book_reader 16, [])"
  by (simp add: before_extract_def open_book)

lemma extract_tables_book:
  "extract_tables (demo_env H book) (book_reader p)
     = (book_pages, book_assets, book_sections, book_reader 114)"
  by (simp add: extract_tables_def getPages_book getAssets_book getSections_book)

lemma book_sections_all:
  "P (book_sections ! 0) \<Longrightarrow> P (book_sections ! 1) \<Longrightarrow> P (book_sections ! 2) \<Longrightarrow>
   \<forall>s\<in>set book_sections. P s"
  by (simp add: book_sections_def)

lemma do_verify_book:
  "do_verify (demo_env length_hash book) (book_reader p) t =
     (None, book_reader 10,
      t @ [Cout (''Verifying asset integrity...'' @ nl), mismatch_message 1])"
  apply (simp add: do_verify_def getAssets_book)
  apply (simp add: book_assets_def read_asset_def seekg_def read_bytes_def zeros_def
      book_reader_def book_bytes length_hash_def mismatch_message_def)
  done

lemma before_extract_book_verify:
  "before_extract (demo_env length_hash book) (read_opts False True True target)
     = Some (None, book_reader 10,
             [Cout (''Verifying asset integrity...'' @ nl), mismatch_message 1])"
  by (simp add: before_extract_def open_book do_verify_book)

theorem extract_section_not_found_witness:
  "modeExtract (read_opts False False True ''Z'') \<and>
   before_extract (demo_env length_hash book) (read_opts False False True ''Z'')
     = Some (None, book_reader 16, []) \<and>
   extract_tables (demo_env length_hash book) (book_reader 16)
     = (book_pages, book_assets, book_sections, book_reader 114) \<and>
   targetSection (read_opts False False True ''Z'') \<noteq> [] \<and>
   title_differs (book_reader 114) (book_sections ! 0) ''Z'' \<and>
   title_differs (book_reader 114) (book_sections ! 1) ''Z'' \<and>
   title_differs (book_reader 114) (book_sections ! 2) ''Z'' \<and>
   fst (main (demo_env length_hash book) (read_opts False False True ''Z'')) = Exit 1 \<and>
   written (snd (main (demo_env length_hash book) (read_opts False False True ''Z''))) = [] \<and>
   title_is (book_reader 114) (book_sections ! 1) ''B'' \<and>
   title_differs (book_reader 114) (book_sections ! 0) ''B'' \<and>
   fst (main (demo_env length_hash book) (read_opts False False True ''B'')) = Exit 0"
proof -
  let ?e = "demo_env length_hash book"
  have x: "modeExtract (read_opts False False True tgt)" for tgt
    by simp
  have nz: "targetSection (read_opts False False True ''Z'') \<noteq> []"
    and nb: "targetSection (read_opts False False True ''B'') \<noteq> []"
    by simp_all
  have none: "\<forall>s\<in>set book_sections.
      title_differs (book_reader 114) s (targetSection (read_opts False False True ''Z''))"
    using book_no_Z [of 114] by (intro book_sections_all) simp_all
  from extract_section_not_found
    [OF x before_extract_book extract_tables_book nz, THEN conjunct1] none
  have z: "fst (main ?e (read_opts False False True ''Z'')) = Exit 1"
    "written (snd (main ?e (read_opts False False True ''Z''))) = []"
    by blast+
  have first: "\<forall>m<1. title_differs (book_reader 114) (book_sections ! m)
      (targetSection (read_opts False False True ''B''))"
    using book_B(2) [of 114] by simp
  have starts: "\<forall>s\<in>set book_sections. unat (sectionStartIndex s) \<le> length book_pages"
    by (simp add: book_sections_def book_pages_def)
  have indices: "\<forall>p\<in>set book_pages. unat (assetIndex p) < length book_assets"
    by (simp add: book_pages_def book_assets_def)
  have "1 < length book_sections"
    by (simp add: book_sections_def)
  with extract_section_not_found
    [OF x before_extract_book extract_tables_book nb, where i = 1, THEN conjunct2]
    book_B [of 114] first starts indices
  have b: "fst (main ?e (read_opts False False True ''B'')) = Exit 0"
    by simp
  from z b book_no_Z [of 114] book_B [of 114] before_extract_book [of length_hash "''Z''"]
    extract_tables_book [of length_hash 16]
  show ?thesis
    by simp
qed

theorem extract_not_found_creates_directory_witness:
  "modeExtract (read_opts False True True ''Z'') \<and>
   before_extract (demo_env length_hash book) (read_opts False True True ''Z'')
     = Some (None, book_reader 10,
             [Cout (''Verifying asset integrity...'' @ nl), mismatch_message 1]) \<and>
   extract_tables (demo_env length_hash book) (book_reader 10)
     = (book_pages, book_assets, book_sections, book_reader 114) \<and>
   targetSection (read_opts False True True ''Z'') \<noteq> [] \<and>
   title_differs (book_reader 114) (book_sections ! 0) ''Z'' \<and>
   title_differs (book_reader 114) (book_sections ! 1) ''Z'' \<and>
   title_differs (book_reader 114) (book_sections ! 2) ''Z'' \<and>
   main (demo_env length_hash book) (read_opts False True True ''Z'') =
     (Exit 1,
      [Cout (''Verifying asset integrity...'' @ nl), mismatch_message 1,
       CreateDirectories ''out'', not_found_message ''Z''])"
proof -
  let ?e = "demo_env length_hash book" and ?opts = "read_opts False True True ''Z''"
  have x: "modeExtract ?opts" and nz: "targetSection ?opts \<noteq> []"
    by simp_all
  have none: "\<forall>s\<in>set book_sections. title_differs (book_reader 114) s (targetSection ?opts)"
    using book_no_Z [of 114] by (intro book_sections_all) simp_all
  from extract_not_found_creates_directory
    [OF x before_extract_book_verify extract_tables_book nz none]
  have "main ?e ?opts =
     (Exit 1,
      [Cout (''Verifying asset integrity...'' @ nl), mismatch_message 1,
       CreateDirectories ''out'', not_found_message ''Z''])"
    by simp
  with book_no_Z [of 114] before_extract_book_verify [of "''Z''"]
    extract_tables_book [of length_hash 10]
  show ?thesis
    by simp
qed

lemma book_page_assets:
  "map (page_asset book_pages book_assets) [0..<3]
     = [book_assets ! 0, book_assets ! 1, book_assets ! 0]"
  by (simp add: upt_small page_asset_def book_pages_def)

lemma to_string_digits: "to_string 1 = ''1''" "to_string 2 = ''2''" "to_string 3 = ''3''"
  by (simp_all add: to_string.simps digit_char_def)

theorem extract_page_extension_witness:
  "unat (3 :: u32) \<le> length book_pages \<and>
   unat (assetIndex (book_pages ! 0)) < length book_assets \<and>
   unat (assetIndex (book_pages ! 1)) < length book_assets \<and>
   unat (assetIndex (book_pages ! 2)) < length book_assets \<and>
   type (book_assets ! 0) = 0x01 \<and> type (book_assets ! 1) = 0x07 \<and>
   fst (extract_pages ''out'' book_pages book_assets 0 3 (stream (book_reader 114)) []) = None \<and>
   snd (snd (extract_pages ''out'' book_pages book_assets 0 3 (stream (book_reader 114)) []))
     = [WriteFile ''out/page_1.avif'' ''abc'', WriteFile ''out/page_2.png'' ''de'',
        WriteFile ''out/page_3.avif'' ''abc'']"
proof -
  have le: "unat (3 :: u32) \<le> length book_pages"
    by (simp add: book_pages_def)
  have idx: "unat (assetIndex (book_pages ! 0)) < length book_assets"
    "unat (assetIndex (book_pages ! 1)) < length book_assets"
    "unat (assetIndex (book_pages ! 2)) < length book_assets"
    by (simp_all add: book_pages_def book_assets_def)
  have ok: "\<forall>n. unat (0 :: u32) \<le> n \<and> n < unat (3 :: u32) \<longrightarrow>
      unat (assetIndex (book_pages ! n)) < length book_assets"
  proof (intro allI impI)
    fix n assume "unat (0 :: u32) \<le> n \<and> n < unat (3 :: u32)"
    then have "n = 0 \<or> n = 1 \<or> n = 2"
      by auto
    with idx show "unat (assetIndex (book_pages ! n)) < length book_assets"
      by auto
  qed
  have tags: "type (book_assets ! 0) = 0x01" "type (book_assets ! 1) = 0x07"
    by (simp_all add: book_assets_def)
  have f: "\<not> failbit (stream (book_reader 114))"
    and c: "contents (stream (book_reader 114)) = book"
    by (simp_all add: book_reader_def)
  have "\<forall>a\<in>set [book_assets ! 0, book_assets ! 1, book_assets ! 0].
      in_file (contents (stream (book_reader 114))) a"
    using book_in_file by (simp add: c)
  from asset_bufs_in_file [OF f this]
  have bufs: "asset_bufs [book_assets ! 0, book_assets ! 1, book_assets ! 0]
      (stream (book_reader 114)) = [''abc'', ''de'', ''abc'']"
    using book_asset_bytes by (simp add: c book_assets_def)
  have range: "[unat (0 :: u32)..<unat (3 :: u32)] = [0..<3]"
    by simp
  have files: "map2 (\<lambda>n buf.
                   WriteFile (path_join ''out'' (''page_'' @ to_string (n + 1)
                                @ (if type (page_asset book_pages book_assets n) = 0x01
                                   then ''.avif'' else ''.png''))) buf)
              [0..<3] [''abc'', ''de'', ''abc'']
     = [WriteFile ''out/page_1.avif'' ''abc'', WriteFile ''out/page_2.png'' ''de'',
        WriteFile ''out/page_3.avif'' ''abc'']"
    by (simp add: upt_small page_asset_def book_pages_def book_assets_def to_string.simps
        digit_char_def path_join_def)
  from extract_page_extension [OF le ok, of "''out''" "stream (book_reader 114)" "[]"]
  obtain s' where "extract_pages ''out'' book_pages book_assets 0 3 (stream (book_reader 114)) [] =
     (None, s',
      [WriteFile ''out/page_1.avif'' ''abc'', WriteFile ''out/page_2.png'' ''de'',
       WriteFile ''out/page_3.avif'' ''abc''])"
    unfolding range book_page_assets bufs files append_Nil by blast
  with le idx tags show ?thesis
    by simp
qed

end
